theory Spec2Isabelle
  imports Complex_Main
begin

section \<open>Artifact paths\<close>

text \<open>
  \<^verbatim>\<open>str.replace(old, new)\<close> for a one-character \<open>old\<close>: every occurrence of the character
  is replaced, everything else is kept.
\<close>

definition replace_char :: "char \<Rightarrow> string \<Rightarrow> string \<Rightarrow> string" where
  "replace_char old new s = concat (map (\<lambda>c. if c = old then new else [c]) s)"

text \<open>
  \<^verbatim>\<open>os.path.basename\<close> (posixpath): everything after the last \<open>/\<close>, the whole string when
  there is none.
\<close>

definition basename :: "string \<Rightarrow> string" where
  "basename p = rev (takeWhile (\<lambda>c. c \<noteq> CHR ''/'') (rev p))"

text \<open>\<^verbatim>\<open>sep.join(parts)\<close>.\<close>

fun join :: "string \<Rightarrow> string list \<Rightarrow> string" where
  "join sep [] = []"
| "join sep [x] = x"
| "join sep (x # y # ys) = x @ sep @ join sep (y # ys)"

text \<open>
  \<^verbatim>\<open>_dbfs_path\<close> and \<^verbatim>\<open>_internal_dbfs_path\<close> of \<^verbatim>\<open>DatabricksPySparkStepLauncher\<close>; the first
  argument is \<^verbatim>\<open>self.staging_prefix\<close>.
\<close>

definition dbfs_path :: "string \<Rightarrow> string \<Rightarrow> string \<Rightarrow> string \<Rightarrow> string" where
  "dbfs_path staging_prefix run_id step_key filename =
     (let path = join ''/''
        [staging_prefix,
         run_id,
         replace_char (CHR '']'') ''__'' (replace_char (CHR ''['') ''__'' step_key),
         basename filename]
      in ''dbfs://'' @ path)"

definition internal_dbfs_path :: "string \<Rightarrow> string \<Rightarrow> string \<Rightarrow> string \<Rightarrow> string" where
  "internal_dbfs_path staging_prefix run_id step_key filename =
     (let path = join ''/''
        [staging_prefix,
         run_id,
         replace_char (CHR '']'') ''__'' (replace_char (CHR ''['') ''__'' step_key),
         basename filename]
      in ''/dbfs/'' @ path)"

text \<open>The step key with both bracket characters escaped in one pass.\<close>

definition escaped_step_key :: "string \<Rightarrow> string" where
  "escaped_step_key k =
     concat (map (\<lambda>c. if c = CHR ''['' \<or> c = CHR '']'' then ''__'' else [c]) k)"

section \<open>Launcher construction\<close>

text \<open>
  The configuration checks of \<^verbatim>\<open>DatabricksPySparkStepLauncher.__init__\<close>. The two package
  paths are optional strings (\<open>None\<close> when the config entry is omitted). The typed
  parameters stand for the \<^verbatim>\<open>check.*_param\<close> type checks; \<^verbatim>\<open>run_config\<close> is an opaque
  dictionary handed on to the job service and is left out.
\<close>

datatype check_error = CheckError string | ParameterCheckError string

text \<open>Truthiness of an optional string: \<^verbatim>\<open>None\<close> and the empty string are falsy.\<close>

definition truthy :: "string option \<Rightarrow> bool" where
  "truthy x = (case x of None \<Rightarrow> False | Some s \<Rightarrow> s \<noteq> [])"

text \<open>\<^verbatim>\<open>a or b\<close>.\<close>

definition py_or :: "string option \<Rightarrow> string option \<Rightarrow> string option" where
  "py_or a b = (if truthy a then a else b)"

record launcher =
  databricks_host :: string
  databricks_token :: string
  secrets :: "(string \<rightharpoonup> string) list"
  storage :: "string \<rightharpoonup> (string \<rightharpoonup> string)"
  local_dagster_job_package_path :: string
  staging_prefix :: string
  wait_for_logs :: bool
  max_wait_time_sec :: int

definition init_launcher ::
  "string \<Rightarrow> string \<Rightarrow> (string \<rightharpoonup> string) list \<Rightarrow> (string \<rightharpoonup> (string \<rightharpoonup> string)) \<Rightarrow>
   string \<Rightarrow> bool \<Rightarrow> int \<Rightarrow> string option \<Rightarrow> string option \<Rightarrow> check_error + launcher" where
  "init_launcher host token secrets_to_env_variables storage_cfg staging wait_logs
       max_completion_wait_time_seconds local_pipeline_package_path local_dagster_job_package_path_arg =
     (if \<not> (local_dagster_job_package_path_arg \<noteq> None \<or> local_pipeline_package_path \<noteq> None)
      then Inl (CheckError
        ''Missing config: need to provide either 'local_dagster_job_package_path' or 'local_pipeline_package_path' config entry'')
      else if \<not> (local_dagster_job_package_path_arg = None \<or> truthy local_pipeline_package_path)
      then Inl (CheckError
        ''Error in config: Provided both 'local_dagster_job_package_path' and 'local_pipeline_package_path' entries. Need to specify one or the other.'')
      else
        (case py_or local_pipeline_package_path local_dagster_job_package_path_arg of
           None \<Rightarrow> Inl (ParameterCheckError ''local_dagster_job_package_path'')
         | Some package_path \<Rightarrow>
             if \<not> (take 1 staging = ''/'')
             then Inl (CheckError ''staging_prefix must be an absolute path'')
             else Inr \<lparr>databricks_host = host,
                       databricks_token = token,
                       secrets = secrets_to_env_variables,
                       storage = storage_cfg,
                       local_dagster_job_package_path = package_path,
                       staging_prefix = staging,
                       wait_for_logs = wait_logs,
                       max_wait_time_sec = max_completion_wait_time_seconds\<rparr>))"

section \<open>Remote storage setup\<close>

text \<open>
  \<^verbatim>\<open>DatabricksConfig.setup_storage\<close> and the two set-up methods it selects between. The
  storage configuration is a dictionary from variant name to that variant's dictionary of
  fields. \<^verbatim>\<open>dbutils.secrets.get\<close> is a parameter (\<open>None\<close> when the lookup raises); the Spark
  Hadoop configuration and the process environment are the state that is written.
\<close>

datatype setup_error = NoValidStorage | KeyError string | SecretLookupError string string

record remote_runtime =
  hadoop_conf :: "string \<rightharpoonup> string"
  environ :: "string \<rightharpoonup> string"

definition getitem :: "(string \<rightharpoonup> 'v) \<Rightarrow> string \<Rightarrow> setup_error + 'v" where
  "getitem d k = (case d k of None \<Rightarrow> Inl (KeyError k) | Some v \<Rightarrow> Inr v)"

definition secrets_get ::
  "(string \<Rightarrow> string \<Rightarrow> string option) \<Rightarrow> string \<Rightarrow> string \<Rightarrow> setup_error + string" where
  "secrets_get dbutils scope key =
     (case dbutils scope key of None \<Rightarrow> Inl (SecretLookupError scope key) | Some v \<Rightarrow> Inr v)"

definition setup_s3_storage ::
  "(string \<Rightarrow> string \<Rightarrow> string option) \<Rightarrow> (string \<rightharpoonup> string) \<Rightarrow> remote_runtime \<Rightarrow>
   setup_error + remote_runtime" where
  "setup_s3_storage dbutils s3_storage rt =
     (case getitem s3_storage ''secret_scope'' of Inl e \<Rightarrow> Inl e | Inr scope \<Rightarrow>
      case getitem s3_storage ''access_key_key'' of Inl e \<Rightarrow> Inl e | Inr access_key_key \<Rightarrow>
      case secrets_get dbutils scope access_key_key of Inl e \<Rightarrow> Inl e | Inr access_key \<Rightarrow>
      case getitem s3_storage ''secret_key_key'' of Inl e \<Rightarrow> Inl e | Inr secret_key_key \<Rightarrow>
      case secrets_get dbutils scope secret_key_key of Inl e \<Rightarrow> Inl e | Inr secret_key \<Rightarrow>
        Inr (rt\<lparr>hadoop_conf := (hadoop_conf rt)
                   (''fs.s3n.awsAccessKeyId'' \<mapsto> access_key,
                    ''fs.s3n.awsSecretAccessKey'' \<mapsto> secret_key),
                 environ := (environ rt)
                   (''AWS_ACCESS_KEY_ID'' \<mapsto> access_key,
                    ''AWS_SECRET_ACCESS_KEY'' \<mapsto> secret_key)\<rparr>))"

definition setup_adls2_storage ::
  "(string \<Rightarrow> string \<Rightarrow> string option) \<Rightarrow> (string \<rightharpoonup> string) \<Rightarrow> remote_runtime \<Rightarrow>
   setup_error + remote_runtime" where
  "setup_adls2_storage dbutils adls2_storage rt =
     (case getitem adls2_storage ''secret_scope'' of Inl e \<Rightarrow> Inl e | Inr scope \<Rightarrow>
      case getitem adls2_storage ''storage_account_key_key'' of Inl e \<Rightarrow> Inl e | Inr key \<Rightarrow>
      case secrets_get dbutils scope key of Inl e \<Rightarrow> Inl e | Inr storage_account_key \<Rightarrow>
      case getitem adls2_storage ''storage_account_name'' of Inl e \<Rightarrow> Inl e | Inr account_name \<Rightarrow>
        Inr (rt\<lparr>hadoop_conf := (hadoop_conf rt)
                   (''fs.azure.account.key.'' @ account_name @ ''.dfs.core.windows.net''
                      \<mapsto> storage_account_key)\<rparr>))"

definition setup_storage ::
  "(string \<Rightarrow> string \<Rightarrow> string option) \<Rightarrow> (string \<rightharpoonup> (string \<rightharpoonup> string)) \<Rightarrow> remote_runtime \<Rightarrow>
   setup_error + remote_runtime" where
  "setup_storage dbutils storage_cfg rt =
     (case storage_cfg ''s3'' of
        Some s3_storage \<Rightarrow> setup_s3_storage dbutils s3_storage rt
      | None \<Rightarrow>
          (case storage_cfg ''adls2'' of
             Some adls2_storage \<Rightarrow> setup_adls2_storage dbutils adls2_storage rt
           | None \<Rightarrow> Inl NoValidStorage))"

text \<open>The storage variants the configuration holds, out of the two the code recognises.\<close>

definition variants_present :: "(string \<rightharpoonup> (string \<rightharpoonup> string)) \<Rightarrow> string list" where
  "variants_present storage_cfg = filter (\<lambda>k. storage_cfg k \<noteq> None) [''s3'', ''adls2'']"

section \<open>The remote event log\<close>

text \<open>
  A record of the remote event log is either the completion marker
  \<^verbatim>\<open>databricks_step_main.LOGS_COMPLETE\<close> or a log record whose \<^verbatim>\<open>dagster_event\<close> entry
  deserialises to a value that Python tests for truth: \<open>Some e\<close> is an event, \<open>None\<close> is
  a falsy value (a record that carries no event).
\<close>

datatype 'e log_record = LOGS_COMPLETE | LogRecord "'e option"

text \<open>
  What \<^verbatim>\<open>e.response.json().get("error_code")\<close> gives for an \<^verbatim>\<open>HTTPError\<close>. \<open>ErrorCode c\<close>
  is a body that decodes to a JSON object, with \<open>c\<close> its \<^verbatim>\<open>error_code\<close> entry (\<open>None\<close>
  when it has none). \<open>Undecodable\<close> is every response for which the expression raises:
  no response at all, a body that is not JSON, a body that is not an object.
\<close>

datatype http_body = Undecodable | ErrorCode "string option"

text \<open>
  The exceptions that reach the launcher. \<open>HTTPError\<close> carries the body of its response;
  \<open>Exception\<close> and \<open>DatabricksError\<close> are ordinary exceptions; \<open>Interrupted\<close> is the
  interrupt that \<^verbatim>\<open>raise_execution_interrupts\<close> raises, which is not an \<^verbatim>\<open>Exception\<close>.
\<close>

datatype error =
    HTTPError http_body
  | Exception string
  | DatabricksError string
  | Interrupted

text \<open>
  The exception that leaves the \<^verbatim>\<open>except HTTPError\<close> clause when the error code of the
  response cannot be read. It is raised inside the handler, so the \<^verbatim>\<open>except Exception\<close>
  clause beside it does not take it.
\<close>

definition handler_failure :: error where
  "handler_failure = Exception ''the error code of the response cannot be read''"

text \<open>
  What one call of \<^verbatim>\<open>client.read_file\<close> on the event-log path gives: no bytes, the pickle
  of a list of records, or an exception.
\<close>

datatype 'e read_result = EmptyBytes | Pickled "'e log_record list" | ReadRaises error

text \<open>
  The world outside the launcher. Each effectful call is answered by its position in the
  sequence of such calls: the \<open>n\<close>-th \<^verbatim>\<open>read_file\<close> of the event log, the \<open>n\<close>-th
  \<^verbatim>\<open>poll_run_state\<close>, the \<open>n\<close>-th reading of \<^verbatim>\<open>time.time()\<close> (floats taken as reals), the
  \<open>n\<close>-th \<^verbatim>\<open>time.sleep\<close> (which an interrupt may cut short). Uploading, submitting and
  \<^verbatim>\<open>retrieve_logs_for_run_id\<close> happen once per launch.
\<close>

record 'e world =
  read_file :: "nat \<Rightarrow> 'e read_result"
  poll_run_state :: "nat \<Rightarrow> error + bool"
  time_time :: "nat \<Rightarrow> real"
  time_sleep :: "nat \<Rightarrow> error option"
  upload_artifacts :: "error option"
  submit_run :: "error + int"
  retrieve_logs_for_run_id :: "error + (string option \<times> string option) option"

text \<open>
  What the launcher has done so far: how many calls of each kind it has made, the records
  handed to \<^verbatim>\<open>log.dagster_handler.emit_dagster_record\<close>, the number of \<^verbatim>\<open>log.warn\<close> calls
  of the read loop, the events yielded to the caller and the cluster logs written with
  \<^verbatim>\<open>log.info\<close>.
\<close>

record 'e state =
  reads :: nat
  polls :: nat
  clock_reads :: nat
  sleeps :: nat
  emitted :: "'e log_record list"
  warnings :: nat
  yielded :: "'e list"
  infos :: "string list"

text \<open>\<^verbatim>\<open>xs[n:]\<close>: a negative \<open>n\<close> counts from the end of the list.\<close>

definition py_slice_from :: "int \<Rightarrow> 'a list \<Rightarrow> 'a list" where
  "py_slice_from n xs =
     (if n < 0 then drop (nat (int (length xs) + n)) xs else drop (nat n) xs)"

text \<open>
  The \<^verbatim>\<open>for record in records\<close> loop of \<^verbatim>\<open>get_new_events\<close>. The result is the list of
  events, whether the loop returned at the completion marker, and the records emitted.
\<close>

fun scan_records ::
  "'e log_record list \<Rightarrow> 'e list \<Rightarrow> 'e log_record list \<Rightarrow> 'e list \<times> bool \<times> 'e log_record list" where
  "scan_records [] events em = (events, False, em)"
| "scan_records (LOGS_COMPLETE # records) events em = (events, True, em)"
| "scan_records (LogRecord dagster_event # records) events em =
     scan_records records
       (case dagster_event of None \<Rightarrow> events | Some e \<Rightarrow> events @ [e])
       (em @ [LogRecord dagster_event])"

text \<open>
  One pass through the body of the \<^verbatim>\<open>while True\<close> loop up to the retry counter: the
  \<^verbatim>\<open>try\<close> block with its two handlers. It returns from the function, or falls through to
  the counter with the exception caught, or ends with an exception that leaves the
  function: one that no handler takes, or one that a handler raises itself.
\<close>

datatype 'e attempt = Return "'e list \<times> int" | Caught error | Uncaught error

definition read_attempt :: "'e world \<Rightarrow> int \<Rightarrow> 'e state \<Rightarrow> 'e attempt \<times> 'e state" where
  "read_attempt w processed_records st =
     (let st1 = st\<lparr>reads := Suc (reads st)\<rparr> in
      case read_file w (reads st) of
        EmptyBytes \<Rightarrow> (Return ([], processed_records), st1)
      | Pickled all_records \<Rightarrow>
          (let records = py_slice_from processed_records all_records;
               (events, complete, em) = scan_records records [] (emitted st1)
           in (Return (events,
                       if complete then - 1 else processed_records + int (length records)),
               st1\<lparr>emitted := em\<rparr>))
      | ReadRaises e \<Rightarrow>
          (case e of
             HTTPError body \<Rightarrow>
               (case body of
                  Undecodable \<Rightarrow> (Uncaught handler_failure, st1)
                | ErrorCode code \<Rightarrow>
                    if code = Some ''RESOURCE_DOES_NOT_EXIST''
                    then (Return ([], processed_records), st1)
                    else (Caught e, st1))
           | Exception msg \<Rightarrow> (Caught e, st1)
           | DatabricksError msg \<Rightarrow> (Caught e, st1)
           | Interrupted \<Rightarrow> (Uncaught e, st1)))"

text \<open>
  The \<^verbatim>\<open>while True\<close> loop of \<^verbatim>\<open>get_new_events\<close>, with its counter \<^verbatim>\<open>cur_retries\<close>. The
  result is \<open>None\<close> when the loop does not return.
\<close>

partial_function (option) get_new_events_loop ::
  "'e world \<Rightarrow> int \<Rightarrow> nat \<Rightarrow> 'e state \<Rightarrow> ((error + 'e list \<times> int) \<times> 'e state) option" where
  "get_new_events_loop w processed_records cur_retries st =
     (case read_attempt w processed_records st of
        (Return r, st') \<Rightarrow> Some (Inr r, st')
      | (Uncaught e, st') \<Rightarrow> Some (Inl e, st')
      | (Caught err, st') \<Rightarrow>
          (let cur_retries' = cur_retries + 1 in
           if cur_retries' = 3 then Some (Inl err, st')
           else get_new_events_loop w processed_records cur_retries'
                  (st'\<lparr>warnings := Suc (warnings st')\<rparr>)))"

definition get_new_events ::
  "'e world \<Rightarrow> int \<Rightarrow> 'e state \<Rightarrow> ((error + 'e list \<times> int) \<times> 'e state) option" where
  "get_new_events w processed_records st = get_new_events_loop w processed_records 0 st"

section \<open>The event iterator\<close>

text \<open>
  \<^verbatim>\<open>step_events_iterator\<close> is a generator. The model runs it to its end, for a caller
  that takes every event: each \<^verbatim>\<open>yield\<close> appends to the list of events yielded, and the
  result is how the generator ends, by returning or by raising.
\<close>

text \<open>\<^verbatim>\<open>time.sleep(poll_interval_sec)\<close> under \<^verbatim>\<open>raise_execution_interrupts\<close>.\<close>

definition sleep :: "'e world \<Rightarrow> 'e state \<Rightarrow> error option \<times> 'e state" where
  "sleep w st = (time_sleep w (sleeps st), st\<lparr>sleeps := Suc (sleeps st)\<rparr>)"

text \<open>
  The body of the first loop of \<^verbatim>\<open>step_events_iterator\<close>: sleep, then the status query in
  a \<^verbatim>\<open>try\<close> whose \<^verbatim>\<open>finally\<close> block reads the new events and yields them. An exception of
  the status query is raised again after the \<^verbatim>\<open>finally\<close> block, unless that block raises
  itself. The result is the new value of \<^verbatim>\<open>done\<close> and of \<^verbatim>\<open>processed_records\<close>.
\<close>

definition poll_tick ::
  "'e world \<Rightarrow> int \<Rightarrow> 'e state \<Rightarrow> ((error + bool \<times> int) \<times> 'e state) option" where
  "poll_tick w processed_records st =
     (case sleep w st of
        (Some e, st1) \<Rightarrow> Some (Inl e, st1)
      | (None, st1) \<Rightarrow>
          (let polled = poll_run_state w (polls st1);
               st2 = st1\<lparr>polls := Suc (polls st1)\<rparr>
           in case get_new_events w processed_records st2 of
                None \<Rightarrow> None
              | Some (Inl e, st3) \<Rightarrow> Some (Inl e, st3)
              | Some (Inr (new_events, processed_records'), st3) \<Rightarrow>
                  (let st4 = st3\<lparr>yielded := yielded st3 @ new_events\<rparr> in
                   case polled of
                     Inl e \<Rightarrow> Some (Inl e, st4)
                   | Inr done \<Rightarrow> Some (Inr (done, processed_records'), st4))))"

text \<open>The first loop, \<^verbatim>\<open>while not done\<close>; it returns \<^verbatim>\<open>processed_records\<close>.\<close>

partial_function (option) monitor_loop ::
  "'e world \<Rightarrow> bool \<Rightarrow> int \<Rightarrow> 'e state \<Rightarrow> ((error + int) \<times> 'e state) option" where
  "monitor_loop w done processed_records st =
     (if done then Some (Inr processed_records, st)
      else
        (case poll_tick w processed_records st of
           None \<Rightarrow> None
         | Some (Inl e, st') \<Rightarrow> Some (Inl e, st')
         | Some (Inr (done', processed_records'), st') \<Rightarrow>
             monitor_loop w done' processed_records' st'))"

text \<open>
  The second loop, \<^verbatim>\<open>while processed_records != -1\<close>, which waits for the rest of the log
  after the run has completed.
\<close>

partial_function (option) logs_loop ::
  "launcher \<Rightarrow> 'e world \<Rightarrow> real \<Rightarrow> int \<Rightarrow> 'e state \<Rightarrow> ((error + unit) \<times> 'e state) option" where
  "logs_loop l w start processed_records st =
     (if processed_records = - 1 then Some (Inr (), st)
      else
        (let now = time_time w (clock_reads st);
             st1 = st\<lparr>clock_reads := Suc (clock_reads st)\<rparr>
         in if now - start > of_int (max_wait_time_sec l)
            then Some (Inl (DatabricksError
                   ''Timed out while waiting for Dagster logs to become available.''), st1)
            else
              (case get_new_events w processed_records st1 of
                 None \<Rightarrow> None
               | Some (Inl e, st2) \<Rightarrow> Some (Inl e, st2)
               | Some (Inr (new_events, processed_records'), st2) \<Rightarrow>
                   (case sleep w (st2\<lparr>yielded := yielded st2 @ new_events\<rparr>) of
                      (Some e, st3) \<Rightarrow> Some (Inl e, st3)
                    | (None, st3) \<Rightarrow> logs_loop l w start processed_records' st3))))"

definition step_events_iterator ::
  "launcher \<Rightarrow> 'e world \<Rightarrow> 'e state \<Rightarrow> ((error + unit) \<times> 'e state) option" where
  "step_events_iterator l w st =
     (let processed_records = 0;
          start = time_time w (clock_reads st);
          st0 = st\<lparr>clock_reads := Suc (clock_reads st)\<rparr>
      in case monitor_loop w False processed_records st0 of
           None \<Rightarrow> None
         | Some (Inl e, st1) \<Rightarrow> Some (Inl e, st1)
         | Some (Inr processed_records', st1) \<Rightarrow> logs_loop l w start processed_records' st1)"

section \<open>Launching a step\<close>

text \<open>\<^verbatim>\<open>if text: log.info(text)\<close> for an optional string.\<close>

definition log_info_if_truthy :: "string option \<Rightarrow> 'e state \<Rightarrow> 'e state" where
  "log_info_if_truthy text st =
     (case text of
        None \<Rightarrow> st
      | Some s \<Rightarrow> if s \<noteq> [] then st\<lparr>infos := infos st @ [s]\<rparr> else st)"

text \<open>
  \<^verbatim>\<open>_log_logs_from_cluster\<close>: the cluster's stderr and stdout are logged when there are
  any. \<^verbatim>\<open>retrieve_logs_for_run_id\<close> belongs to the job runner; what it returns or raises
  is given by the world.
\<close>

definition log_logs_from_cluster :: "'e world \<Rightarrow> 'e state \<Rightarrow> (error + unit) \<times> 'e state" where
  "log_logs_from_cluster w st =
     (case retrieve_logs_for_run_id w of
        Inl e \<Rightarrow> (Inl e, st)
      | Inr None \<Rightarrow> (Inr (), st)
      | Inr (Some (stdout, stderr)) \<Rightarrow>
          (Inr (), log_info_if_truthy stdout (log_info_if_truthy stderr st)))"

text \<open>
  \<^verbatim>\<open>launch_step\<close>: upload, submit, then the event iterator in a \<^verbatim>\<open>try\<close> whose \<^verbatim>\<open>finally\<close>
  block fetches the cluster logs when \<^verbatim>\<open>wait_for_logs\<close> is set.
\<close>

definition launch_step ::
  "launcher \<Rightarrow> 'e world \<Rightarrow> 'e state \<Rightarrow> ((error + unit) \<times> 'e state) option" where
  "launch_step l w st =
     (case upload_artifacts w of
        Some e \<Rightarrow> Some (Inl e, st)
      | None \<Rightarrow>
          (case submit_run w of
             Inl e \<Rightarrow> Some (Inl e, st)
           | Inr databricks_run_id \<Rightarrow>
               (case step_events_iterator l w st of
                  None \<Rightarrow> None
                | Some (outcome, st1) \<Rightarrow>
                    if wait_for_logs l
                    then (case log_logs_from_cluster w st1 of
                            (Inl e, st2) \<Rightarrow> Some (Inl e, st2)
                          | (Inr u, st2) \<Rightarrow> Some (outcome, st2))
                    else Some (outcome, st1))))"

section \<open>Vocabulary of the properties\<close>

text \<open>The records of a list that come before its first completion marker.\<close>

definition before_marker :: "'e log_record list \<Rightarrow> 'e log_record list" where
  "before_marker rs = takeWhile (\<lambda>r. r \<noteq> LOGS_COMPLETE) rs"

text \<open>The events that the records of a list carry, in the order of the list.\<close>

fun domain_events :: "'e log_record list \<Rightarrow> 'e list" where
  "domain_events [] = []"
| "domain_events (LogRecord (Some e) # rs) = e # domain_events rs"
| "domain_events (r # rs) = domain_events rs"

text \<open>
  The exceptions of a read that the retry counter of \<^verbatim>\<open>get_new_events\<close> counts: every
  \<^verbatim>\<open>Exception\<close> that is not an \<^verbatim>\<open>HTTPError\<close>, and the \<^verbatim>\<open>HTTPError\<close> whose body gives an
  error code other than the one of a file that does not exist.
\<close>

definition counted_by_retry :: "error \<Rightarrow> bool" where
  "counted_by_retry e =
     (case e of
        HTTPError body \<Rightarrow>
          (case body of
             Undecodable \<Rightarrow> False
           | ErrorCode code \<Rightarrow> code \<noteq> Some ''RESOURCE_DOES_NOT_EXIST'')
      | Exception msg \<Rightarrow> True
      | DatabricksError msg \<Rightarrow> True
      | Interrupted \<Rightarrow> False)"

section \<open>Example inputs\<close>

definition example_dbutils :: "string \<Rightarrow> string \<Rightarrow> string option" where
  "example_dbutils scope key = (if scope = ''vault'' then Some (''secret-of-'' @ key) else None)"

definition example_s3_fields :: "string \<rightharpoonup> string" where
  "example_s3_fields =
     [''secret_scope'' \<mapsto> ''vault'', ''access_key_key'' \<mapsto> ''ak'', ''secret_key_key'' \<mapsto> ''sk'']"

definition example_adls2_fields :: "string \<rightharpoonup> string" where
  "example_adls2_fields =
     [''secret_scope'' \<mapsto> ''vault'', ''storage_account_key_key'' \<mapsto> ''k'',
      ''storage_account_name'' \<mapsto> ''acct'']"

definition example_s3_config :: "string \<rightharpoonup> (string \<rightharpoonup> string)" where
  "example_s3_config = [''s3'' \<mapsto> example_s3_fields]"

definition example_adls2_config :: "string \<rightharpoonup> (string \<rightharpoonup> string)" where
  "example_adls2_config = [''adls2'' \<mapsto> example_adls2_fields]"

definition example_runtime :: remote_runtime where
  "example_runtime = \<lparr>hadoop_conf = Map.empty, environ = Map.empty\<rparr>"

text \<open>A record that wraps a domain event.\<close>

definition wraps_event :: "'e log_record \<Rightarrow> bool" where
  "wraps_event r =
     (case r of LOGS_COMPLETE \<Rightarrow> False | LogRecord dagster_event \<Rightarrow> dagster_event \<noteq> None)"

text \<open>Two states that agree on everything a read of the event log leaves alone.\<close>

definition same_but_reads :: "'e state \<Rightarrow> 'e state \<Rightarrow> bool" where
  "same_but_reads st st' =
     (polls st' = polls st \<and> clock_reads st' = clock_reads st \<and> sleeps st' = sleeps st
      \<and> yielded st' = yielded st \<and> infos st' = infos st)"

text \<open>
  A world whose answers are scripted by lists; past the end of a list the event log reads
  as empty, the run is reported complete, the clock stays at zero and no sleep is cut
  short.
\<close>

definition scripted_world ::
  "nat read_result list \<Rightarrow> (error + bool) list \<Rightarrow> real list \<Rightarrow>
   error + (string option \<times> string option) option \<Rightarrow> nat world" where
  "scripted_world file_reads poll_answers clock cluster_logs =
     \<lparr>read_file = (\<lambda>n. if n < length file_reads then file_reads ! n else EmptyBytes),
      poll_run_state = (\<lambda>n. if n < length poll_answers then poll_answers ! n else Inr True),
      time_time = (\<lambda>n. if n < length clock then clock ! n else 0),
      time_sleep = (\<lambda>n. None),
      upload_artifacts = None,
      submit_run = Inr 1,
      retrieve_logs_for_run_id = cluster_logs\<rparr>"

text \<open>A world in which every read of the event log gives the same list of records.\<close>

definition fixed_log_world :: "nat log_record list \<Rightarrow> nat world" where
  "fixed_log_world records =
     \<lparr>read_file = (\<lambda>n. Pickled records),
      poll_run_state = (\<lambda>n. Inr True),
      time_time = (\<lambda>n. 0),
      time_sleep = (\<lambda>n. None),
      upload_artifacts = None,
      submit_run = Inr 1,
      retrieve_logs_for_run_id = Inr None\<rparr>"

definition initial_state :: "nat state" where
  "initial_state =
     \<lparr>reads = 0, polls = 0, clock_reads = 0, sleeps = 0, emitted = [], warnings = 0,
      yielded = [], infos = []\<rparr>"

definition example_launcher :: "bool \<Rightarrow> int \<Rightarrow> launcher" where
  "example_launcher wait_logs max_wait =
     \<lparr>databricks_host = ''host'', databricks_token = ''token'', secrets = [],
      storage = Map.empty, local_dagster_job_package_path = ''/code/pipeline'',
      staging_prefix = ''/dagster_staging'', wait_for_logs = wait_logs,
      max_wait_time_sec = max_wait\<rparr>"

text \<open>
  Two worlds that answer alike whatever the second loop of the iterator asks: reads of
  the event log, readings of the clock and sleeps.
\<close>

definition same_log_and_clock :: "'e world \<Rightarrow> 'e world \<Rightarrow> bool" where
  "same_log_and_clock w w' =
     (read_file w' = read_file w \<and> time_time w' = time_time w \<and> time_sleep w' = time_sleep w)"

text \<open>
  The test of the second loop: the clock reading that the state is about to take is more
  than the maximum wait after \<open>start\<close>.
\<close>

definition timed_out :: "launcher \<Rightarrow> 'e world \<Rightarrow> real \<Rightarrow> 'e state \<Rightarrow> bool" where
  "timed_out l w start st = (time_time w (clock_reads st) - start > of_int (max_wait_time_sec l))"

text \<open>The exception of the second loop.\<close>

definition log_timeout :: error where
  "log_timeout = DatabricksError ''Timed out while waiting for Dagster logs to become available.''"

section \<open>Properties of the artifact paths\<close>

lemma replace_char_twice:
  "replace_char (CHR '']'') ''__'' (replace_char (CHR ''['') ''__'' k) = escaped_step_key k"
  by (induction k) (simp_all add: replace_char_def escaped_step_key_def)

lemma escaped_step_key_no_brackets:
  "CHR ''['' \<notin> set (escaped_step_key k) \<and> CHR '']'' \<notin> set (escaped_step_key k)"
  by (auto simp: escaped_step_key_def)

text \<open>
  C8. Both path renderings are functions of staging prefix, run id, step key and file name
  alone. Each is its fixed prefix (\<open>dbfs://\<close> or \<open>/dbfs/\<close>) followed by the same string:
  staging prefix, run id, escaped step key and base name of the file, joined by \<open>/\<close>. The
  escaped step key is the step key with every \<open>[\<close> and every \<open>]\<close> replaced by \<open>__\<close>, so
  it holds neither character. For run id \<open>r\<close>, step key \<open>a[0]\<close> and file \<open>x.bin\<close> the
  step key is rendered as \<open>a__0__\<close> in both.
\<close>

theorem dbfs_paths_differ_only_in_prefix:
  "dbfs_path sp r k f =
     ''dbfs://'' @ sp @ ''/'' @ r @ ''/'' @ escaped_step_key k @ ''/'' @ basename f
   \<and> internal_dbfs_path sp r k f =
     ''/dbfs/'' @ sp @ ''/'' @ r @ ''/'' @ escaped_step_key k @ ''/'' @ basename f
   \<and> CHR ''['' \<notin> set (escaped_step_key k) \<and> CHR '']'' \<notin> set (escaped_step_key k)
   \<and> escaped_step_key ''a[0]'' = ''a__0__''
   \<and> dbfs_path sp ''r'' ''a[0]'' ''x.bin'' = ''dbfs://'' @ sp @ ''/r/a__0__/x.bin''
   \<and> internal_dbfs_path sp ''r'' ''a[0]'' ''x.bin'' = ''/dbfs/'' @ sp @ ''/r/a__0__/x.bin''"
  by (simp add: dbfs_path_def internal_dbfs_path_def replace_char_twice
        escaped_step_key_no_brackets)
     (simp add: escaped_step_key_def basename_def)

theorem dbfs_paths_differ_only_in_prefix_witness:
  "dbfs_path ''/dagster_staging'' ''r'' ''a[0]'' ''dir/x.bin'' =
     ''dbfs:///dagster_staging/r/a__0__/x.bin''
   \<and> internal_dbfs_path ''/dagster_staging'' ''r'' ''a[0]'' ''dir/x.bin'' =
     ''/dbfs//dagster_staging/r/a__0__/x.bin''"
  using dbfs_paths_differ_only_in_prefix
    [of "''/dagster_staging''" "''r''" "''a[0]''" "''dir/x.bin''"]
  by (simp add: escaped_step_key_def basename_def)

section \<open>Properties of the launcher's construction\<close>

text \<open>
  C10. A configuration that gives \<^verbatim>\<open>local_dagster_job_package_path\<close> and omits
  \<^verbatim>\<open>local_pipeline_package_path\<close> fails the second invariant check. Whenever the
  construction succeeds, \<^verbatim>\<open>local_pipeline_package_path\<close> was given, is not empty, and is the
  path the launcher keeps. When both paths are given (the pipeline path not empty, the
  staging prefix absolute) the construction succeeds and keeps the pipeline path.
\<close>

theorem init_launcher_needs_pipeline_package_path:
  "(init_launcher h t s cfg sp wl mw None (Some job) =
      Inl (CheckError ''Error in config: Provided both 'local_dagster_job_package_path' and 'local_pipeline_package_path' entries. Need to specify one or the other.''))
   \<and> (init_launcher h t s cfg sp wl mw pipeline job_opt = Inr l \<longrightarrow>
        (\<exists>p. pipeline = Some p \<and> p \<noteq> [] \<and> local_dagster_job_package_path l = p))
   \<and> (p \<noteq> [] \<and> take 1 sp = ''/'' \<longrightarrow>
        (\<exists>l. init_launcher h t s cfg sp wl mw (Some p) (Some job) = Inr l
              \<and> local_dagster_job_package_path l = p))"
  by (auto simp: init_launcher_def truthy_def py_or_def split: option.splits if_splits)

theorem init_launcher_needs_pipeline_package_path_witness:
  "init_launcher ''host'' ''token'' [] Map.empty ''/dagster_staging'' False 60
       (Some ''/code/pipeline'') (Some ''/code/job'') =
     Inr \<lparr>databricks_host = ''host'', databricks_token = ''token'', secrets = [],
          storage = Map.empty, local_dagster_job_package_path = ''/code/pipeline'',
          staging_prefix = ''/dagster_staging'', wait_for_logs = False,
          max_wait_time_sec = 60\<rparr>
   \<and> ''/code/pipeline'' \<noteq> [] \<and> take 1 ''/dagster_staging'' = ''/''
   \<and> (\<exists>l. init_launcher ''host'' ''token'' [] Map.empty ''/dagster_staging'' False 60
              (Some ''/code/pipeline'') (Some ''/code/job'') = Inr l
            \<and> local_dagster_job_package_path l = ''/code/pipeline'')
   \<and> (\<exists>msg. init_launcher ''host'' ''token'' [] Map.empty ''/dagster_staging'' False 60
              None (Some ''/code/job'') = Inl (CheckError msg))"
  using init_launcher_needs_pipeline_package_path
    [of "''host''" "''token''" "[]" Map.empty "''/dagster_staging''" False 60 "''/code/job''"
        "Some ''/code/pipeline''" "Some ''/code/job''"
        "\<lparr>databricks_host = ''host'', databricks_token = ''token'', secrets = [],
          storage = Map.empty, local_dagster_job_package_path = ''/code/pipeline'',
          staging_prefix = ''/dagster_staging'', wait_for_logs = False,
          max_wait_time_sec = 60\<rparr>" "''/code/pipeline''"]
  by (simp add: init_launcher_def truthy_def py_or_def)

section \<open>Properties of the remote storage setup\<close>

lemma setup_s3_storage_not_selection_error:
  "setup_s3_storage dbutils s3 rt \<noteq> Inl NoValidStorage"
  by (auto simp: setup_s3_storage_def getitem_def secrets_get_def
      split: sum.splits option.splits)

lemma setup_adls2_storage_not_selection_error:
  "setup_adls2_storage dbutils a rt \<noteq> Inl NoValidStorage"
  by (auto simp: setup_adls2_storage_def getitem_def secrets_get_def
      split: sum.splits option.splits)

text \<open>
  C9. \<^verbatim>\<open>setup_storage\<close> raises its "No valid storage" exception exactly when the
  configuration holds neither \<open>s3\<close> nor \<open>adls2\<close>. Otherwise it runs the set-up of one
  variant only: that of \<open>s3\<close> when \<open>s3\<close> is present, that of \<open>adls2\<close> when \<open>adls2\<close> is
  present and \<open>s3\<close> is not. When exactly one of the two variants is present, the exception
  is not raised.
\<close>

theorem setup_storage_selects_one_variant:
  "(setup_storage dbutils cfg rt = Inl NoValidStorage \<longleftrightarrow>
      cfg ''s3'' = None \<and> cfg ''adls2'' = None)
   \<and> (cfg ''s3'' = Some s3 \<longrightarrow> setup_storage dbutils cfg rt = setup_s3_storage dbutils s3 rt)
   \<and> (cfg ''s3'' = None \<and> cfg ''adls2'' = Some adls2 \<longrightarrow>
        setup_storage dbutils cfg rt = setup_adls2_storage dbutils adls2 rt)
   \<and> (length (variants_present cfg) = 1 \<longrightarrow> setup_storage dbutils cfg rt \<noteq> Inl NoValidStorage)"
  by (auto simp: setup_storage_def variants_present_def
        setup_s3_storage_not_selection_error setup_adls2_storage_not_selection_error
      split: option.splits)

theorem setup_storage_selects_one_variant_witness:
  "example_s3_config ''s3'' = Some example_s3_fields
   \<and> length (variants_present example_s3_config) = 1
   \<and> setup_storage example_dbutils example_s3_config example_runtime =
       Inr \<lparr>hadoop_conf = [''fs.s3n.awsAccessKeyId'' \<mapsto> ''secret-of-ak'',
                           ''fs.s3n.awsSecretAccessKey'' \<mapsto> ''secret-of-sk''],
            environ = [''AWS_ACCESS_KEY_ID'' \<mapsto> ''secret-of-ak'',
                       ''AWS_SECRET_ACCESS_KEY'' \<mapsto> ''secret-of-sk'']\<rparr>
   \<and> example_adls2_config ''s3'' = None
   \<and> example_adls2_config ''adls2'' = Some example_adls2_fields
   \<and> length (variants_present example_adls2_config) = 1
   \<and> setup_storage example_dbutils example_adls2_config example_runtime =
       Inr \<lparr>hadoop_conf =
              [''fs.azure.account.key.acct.dfs.core.windows.net'' \<mapsto> ''secret-of-k''],
            environ = Map.empty\<rparr>
   \<and> setup_storage example_dbutils Map.empty example_runtime = Inl NoValidStorage"
  using setup_storage_selects_one_variant
    [of example_dbutils example_s3_config example_runtime example_s3_fields example_adls2_fields]
    setup_storage_selects_one_variant
    [of example_dbutils example_adls2_config example_runtime example_s3_fields
        example_adls2_fields]
    setup_storage_selects_one_variant
    [of example_dbutils Map.empty example_runtime example_s3_fields example_adls2_fields]
  by (simp add: example_s3_config_def example_adls2_config_def example_dbutils_def
        example_runtime_def example_s3_fields_def example_adls2_fields_def
        variants_present_def setup_s3_storage_def setup_adls2_storage_def getitem_def
        secrets_get_def)

section \<open>Properties of one read cycle\<close>

lemma scan_records_eq:
  "scan_records rs evs em =
     (evs @ domain_events (before_marker rs), LOGS_COMPLETE \<in> set rs, em @ before_marker rs)"
proof (induction rs evs em rule: scan_records.induct)
  case (3 dagster_event records events em)
  then show ?case by (cases dagster_event) (simp_all add: before_marker_def)
qed (simp_all add: before_marker_def)

lemma read_attempt_pickled:
  "read_file w (reads st) = Pickled records \<Longrightarrow>
   read_attempt w p st =
     (Return (domain_events (before_marker (py_slice_from p records)),
              if LOGS_COMPLETE \<in> set (py_slice_from p records) then - 1
              else p + int (length (py_slice_from p records))),
      st\<lparr>reads := Suc (reads st), emitted := emitted st @ before_marker (py_slice_from p records)\<rparr>)"
  by (simp add: read_attempt_def scan_records_eq Let_def)

lemma read_attempt_empty:
  "read_file w (reads st) = EmptyBytes \<Longrightarrow>
   read_attempt w p st = (Return ([], p), st\<lparr>reads := Suc (reads st)\<rparr>)"
  by (simp add: read_attempt_def)

lemma read_attempt_not_found:
  "read_file w (reads st) = ReadRaises (HTTPError (ErrorCode (Some ''RESOURCE_DOES_NOT_EXIST''))) \<Longrightarrow>
   read_attempt w p st = (Return ([], p), st\<lparr>reads := Suc (reads st)\<rparr>)"
  by (simp add: read_attempt_def)

lemma read_attempt_generic:
  "read_file w (reads st) = ReadRaises e \<Longrightarrow> counted_by_retry e \<Longrightarrow>
   read_attempt w p st = (Caught e, st\<lparr>reads := Suc (reads st)\<rparr>)"
  by (cases e) (auto simp: read_attempt_def counted_by_retry_def split: http_body.splits)

lemma read_attempt_undecodable:
  "read_file w (reads st) = ReadRaises (HTTPError Undecodable) \<Longrightarrow>
   read_attempt w p st = (Uncaught handler_failure, st\<lparr>reads := Suc (reads st)\<rparr>)"
  by (simp add: read_attempt_def)

lemma read_attempt_interrupted:
  "read_file w (reads st) = ReadRaises Interrupted \<Longrightarrow>
   read_attempt w p st = (Uncaught Interrupted, st\<lparr>reads := Suc (reads st)\<rparr>)"
  by (simp add: read_attempt_def)

lemma read_attempt_cases:
  obtains (returned) r em where
      "read_attempt w p st = (Return r, st\<lparr>reads := Suc (reads st), emitted := em\<rparr>)"
    | (uncaught) e where
      "read_attempt w p st = (Uncaught e, st\<lparr>reads := Suc (reads st)\<rparr>)"
    | (caught) e where
      "read_attempt w p st = (Caught e, st\<lparr>reads := Suc (reads st)\<rparr>)"
proof (cases "read_file w (reads st)")
  case EmptyBytes
  then have "read_attempt w p st = (Return ([], p), st\<lparr>reads := Suc (reads st), emitted := emitted st\<rparr>)"
    by (simp add: read_attempt_empty)
  then show ?thesis by (rule returned)
next
  case (Pickled records)
  then show ?thesis using read_attempt_pickled [of w st records p] returned by blast
next
  case (ReadRaises e)
  show ?thesis
  proof (cases "counted_by_retry e")
    case True
    then show ?thesis using ReadRaises read_attempt_generic caught by blast
  next
    case False
    then consider "e = Interrupted" | "e = HTTPError (ErrorCode (Some ''RESOURCE_DOES_NOT_EXIST''))"
      | "e = HTTPError Undecodable"
      by (cases e) (auto simp: counted_by_retry_def split: http_body.splits)
    then show ?thesis
    proof cases
      case 1
      then show ?thesis using ReadRaises read_attempt_interrupted uncaught by blast
    next
      case 3
      then show ?thesis using ReadRaises read_attempt_undecodable uncaught by blast
    next
      case 2
      then have "read_attempt w p st = (Return ([], p), st\<lparr>reads := Suc (reads st), emitted := emitted st\<rparr>)"
        using ReadRaises by (simp add: read_attempt_not_found)
      then show ?thesis by (rule returned)
    qed
  qed
qed

lemma loop_return:
  "read_attempt w p st = (Return r, st') \<Longrightarrow> get_new_events_loop w p c st = Some (Inr r, st')"
  by (subst get_new_events_loop.simps) simp

lemma loop_uncaught:
  "read_attempt w p st = (Uncaught e, st') \<Longrightarrow> get_new_events_loop w p c st = Some (Inl e, st')"
  by (subst get_new_events_loop.simps) simp

lemma loop_caught_last:
  "read_attempt w p st = (Caught e, st') \<Longrightarrow> get_new_events_loop w p 2 st = Some (Inl e, st')"
  by (subst get_new_events_loop.simps) simp

lemma loop_caught_retry:
  "read_attempt w p st = (Caught e, st') \<Longrightarrow> c + 1 \<noteq> 3 \<Longrightarrow>
   get_new_events_loop w p c st = get_new_events_loop w p (c + 1) (st'\<lparr>warnings := Suc (warnings st')\<rparr>)"
  by (subst get_new_events_loop.simps) simp

lemma loop_returns:
  "c < 3 \<Longrightarrow>
   \<exists>r st'. get_new_events_loop w p c st = Some (r, st')
     \<and> reads st < reads st' \<and> reads st' \<le> reads st + (3 - c) \<and> same_but_reads st st'"
proof (induction "3 - c" arbitrary: c st)
  case 0
  then show ?case by simp
next
  case (Suc n)
  show ?case
  proof (cases rule: read_attempt_cases [of w p st])
    case (returned r em)
    then show ?thesis using Suc.prems
      by (auto simp: loop_return same_but_reads_def)
  next
    case (uncaught e)
    then show ?thesis using Suc.prems
      by (auto simp: loop_uncaught same_but_reads_def)
  next
    case (caught e)
    show ?thesis
    proof (cases "c = 2")
      case True
      then show ?thesis using caught by (auto simp: loop_caught_last same_but_reads_def)
    next
      case False
      let ?st = "st\<lparr>reads := Suc (reads st), warnings := Suc (warnings st)\<rparr>"
      from False Suc.prems have c: "c + 1 \<noteq> 3" "c + 1 < 3" by auto
      from Suc.hyps(2) c have "n = 3 - (c + 1)" by simp
      from Suc.hyps(1) [OF this c(2), of ?st]
      obtain r st' where r: "get_new_events_loop w p (c + 1) ?st = Some (r, st')"
        "reads ?st < reads st'" "reads st' \<le> reads ?st + (3 - (c + 1))" "same_but_reads ?st st'"
        by blast
      have "get_new_events_loop w p c st = Some (r, st')"
        using loop_caught_retry [OF caught c(1)] r(1) by simp
      then show ?thesis using r(2-4) c by (auto simp: same_but_reads_def)
    qed
  qed
qed

lemma get_new_events_returns:
  "\<exists>r st'. get_new_events w p st = Some (r, st')
     \<and> reads st < reads st' \<and> reads st' \<le> reads st + 3 \<and> same_but_reads st st'"
  using loop_returns [of 0 w p st] by (simp add: get_new_events_def)

lemma get_new_events_pickled:
  "read_file w (reads st) = Pickled records \<Longrightarrow>
   get_new_events w p st =
     Some (Inr (domain_events (before_marker (py_slice_from p records)),
              if LOGS_COMPLETE \<in> set (py_slice_from p records) then - 1
              else p + int (length (py_slice_from p records))),
      st\<lparr>reads := Suc (reads st), emitted := emitted st @ before_marker (py_slice_from p records)\<rparr>)"
  unfolding get_new_events_def by (rule loop_return) (rule read_attempt_pickled)

lemma before_marker_complete: "LOGS_COMPLETE \<notin> set rs \<Longrightarrow> before_marker (rs @ LOGS_COMPLETE # rest) = rs"
  by (induction rs) (auto simp: before_marker_def)

lemma before_marker_none: "LOGS_COMPLETE \<notin> set rs \<Longrightarrow> before_marker rs = rs"
  by (induction rs) (auto simp: before_marker_def)

lemma domain_events_wrapped:
  "list_all wraps_event rs \<Longrightarrow> map (\<lambda>e. LogRecord (Some e)) (domain_events rs) = rs"
proof (induction rs rule: domain_events.induct)
qed (auto simp: wraps_event_def)

lemma py_slice_from_nat: "py_slice_from (int k) xs = drop k xs"
  by (simp add: py_slice_from_def)

lemma py_slice_from_last: "xs \<noteq> [] \<Longrightarrow> py_slice_from (- 1) xs = [last xs]"
proof -
  assume xs: "xs \<noteq> []"
  then obtain ys y where "xs = ys @ [y]" by (metis append_butlast_last_id)
  then show ?thesis by (simp add: py_slice_from_def)
qed

text \<open>One turn of the second loop of the iterator, case by case.\<close>

lemma logs_loop_done: "logs_loop l w start (- 1) st = Some (Inr (), st)"
  by (subst logs_loop.simps) simp

lemma logs_loop_timed_out:
  "p \<noteq> - 1 \<Longrightarrow> timed_out l w start st \<Longrightarrow>
   logs_loop l w start p st = Some (Inl log_timeout, st\<lparr>clock_reads := Suc (clock_reads st)\<rparr>)"
  by (subst logs_loop.simps) (simp add: timed_out_def log_timeout_def)

lemma logs_loop_read_raises:
  "p \<noteq> - 1 \<Longrightarrow> \<not> timed_out l w start st \<Longrightarrow>
   get_new_events w p (st\<lparr>clock_reads := Suc (clock_reads st)\<rparr>) = Some (Inl e, st2) \<Longrightarrow>
   logs_loop l w start p st = Some (Inl e, st2)"
  by (subst logs_loop.simps) (simp add: timed_out_def)

lemma logs_loop_interrupted:
  "p \<noteq> - 1 \<Longrightarrow> \<not> timed_out l w start st \<Longrightarrow>
   get_new_events w p (st\<lparr>clock_reads := Suc (clock_reads st)\<rparr>) = Some (Inr (evs, p'), st2) \<Longrightarrow>
   time_sleep w (sleeps st2) = Some e \<Longrightarrow>
   logs_loop l w start p st =
     Some (Inl e, st2\<lparr>yielded := yielded st2 @ evs, sleeps := Suc (sleeps st2)\<rparr>)"
  by (subst logs_loop.simps) (simp add: timed_out_def sleep_def)

lemma logs_loop_continues:
  "p \<noteq> - 1 \<Longrightarrow> \<not> timed_out l w start st \<Longrightarrow>
   get_new_events w p (st\<lparr>clock_reads := Suc (clock_reads st)\<rparr>) = Some (Inr (evs, p'), st2) \<Longrightarrow>
   time_sleep w (sleeps st2) = None \<Longrightarrow>
   logs_loop l w start p st =
     logs_loop l w start p' (st2\<lparr>yielded := yielded st2 @ evs, sleeps := Suc (sleeps st2)\<rparr>)"
  by (subst logs_loop.simps) (simp add: timed_out_def sleep_def)

text \<open>
  C1. Against a log that stays fixed and is made of records that are not the completion
  marker followed by the marker as last record, the read cycle started at offset 0 returns
  the events of all the records before the marker, in log order, forwards exactly those
  records to the log handler, and returns the offset \<open>-1\<close>. When each of the \<open>N - 1\<close>
  records wraps a domain event, these are exactly \<open>N - 1\<close> events, one per record. A
  further cycle at offset \<open>-1\<close> makes one read, returns no event, emits nothing and
  returns \<open>-1\<close> again. The second loop of the iterator, started at offset 0 within
  the time allowed, yields these events in one cycle and ends without a further cycle.
\<close>

theorem recovery_of_complete_log:
  assumes fixed: "\<forall>n. read_file w n = Pickled (rs @ [LOGS_COMPLETE])"
    and rs: "LOGS_COMPLETE \<notin> set rs"
  shows "get_new_events w 0 st =
           Some (Inr (domain_events rs, - 1),
                 st\<lparr>reads := Suc (reads st), emitted := emitted st @ rs\<rparr>)
         \<and> (list_all wraps_event rs \<longrightarrow>
              map (\<lambda>e. LogRecord (Some e)) (domain_events rs) = rs
              \<and> length (domain_events rs) = length (rs @ [LOGS_COMPLETE]) - 1)
         \<and> get_new_events w (- 1) (st\<lparr>reads := Suc (reads st), emitted := emitted st @ rs\<rparr>) =
             Some (Inr ([], - 1),
                   st\<lparr>reads := Suc (Suc (reads st)), emitted := emitted st @ rs\<rparr>)
         \<and> (\<not> timed_out l w start st \<and> time_sleep w (sleeps st) = None \<longrightarrow>
              logs_loop l w start 0 st =
                Some (Inr (),
                      st\<lparr>clock_reads := Suc (clock_reads st), reads := Suc (reads st),
                         emitted := emitted st @ rs,
                         yielded := yielded st @ domain_events rs,
                         sleeps := Suc (sleeps st)\<rparr>))"
proof -
  let ?st1 = "st\<lparr>reads := Suc (reads st), emitted := emitted st @ rs\<rparr>"
  have cycle: "get_new_events w 0 s =
      Some (Inr (domain_events rs, - 1), s\<lparr>reads := Suc (reads s), emitted := emitted s @ rs\<rparr>)"
    for s
    using get_new_events_pickled [of w s "rs @ [LOGS_COMPLETE]" 0] fixed rs
    by (simp add: py_slice_from_def before_marker_complete)
  have again: "get_new_events w (- 1) ?st1 =
      Some (Inr ([], - 1), st\<lparr>reads := Suc (Suc (reads st)), emitted := emitted st @ rs\<rparr>)"
    using get_new_events_pickled [of w ?st1 "rs @ [LOGS_COMPLETE]" "- 1"] fixed
    by (simp add: py_slice_from_last before_marker_def)
  have wrapped: "list_all wraps_event rs \<longrightarrow>
       map (\<lambda>e. LogRecord (Some e)) (domain_events rs) = rs
       \<and> length (domain_events rs) = length (rs @ [LOGS_COMPLETE]) - 1"
    using domain_events_wrapped [of rs] by (metis length_map length_append_singleton diff_Suc_1)
  have run: "logs_loop l w start 0 st =
      Some (Inr (),
            st\<lparr>clock_reads := Suc (clock_reads st), reads := Suc (reads st),
               emitted := emitted st @ rs, yielded := yielded st @ domain_events rs,
               sleeps := Suc (sleeps st)\<rparr>)"
    if nt: "\<not> timed_out l w start st" and sl: "time_sleep w (sleeps st) = None"
  proof -
    let ?s1 = "st\<lparr>clock_reads := Suc (clock_reads st)\<rparr>"
    let ?s2 = "?s1\<lparr>reads := Suc (reads ?s1), emitted := emitted ?s1 @ rs\<rparr>"
    have ne: "(0::int) \<noteq> - 1" by simp
    from sl have sl2: "time_sleep w (sleeps ?s2) = None" by simp
    from logs_loop_continues [OF ne nt cycle [of ?s1] sl2] logs_loop_done
    show ?thesis by simp
  qed
  show ?thesis using cycle [of st] again wrapped run by simp
qed

theorem recovery_of_complete_log_witness:
  "(\<forall>n. read_file (fixed_log_world [LogRecord (Some 7), LogRecord (Some 8), LOGS_COMPLETE]) n =
         Pickled ([LogRecord (Some 7), LogRecord (Some 8)] @ [LOGS_COMPLETE]))
   \<and> LOGS_COMPLETE \<notin> set [LogRecord (Some (7::nat)), LogRecord (Some 8)]
   \<and> list_all wraps_event [LogRecord (Some (7::nat)), LogRecord (Some 8)]
   \<and> \<not> timed_out (example_launcher False 60)
          (fixed_log_world [LogRecord (Some 7), LogRecord (Some 8), LOGS_COMPLETE]) 0 initial_state
   \<and> get_new_events (fixed_log_world [LogRecord (Some 7), LogRecord (Some 8), LOGS_COMPLETE]) 0
        initial_state =
       Some (Inr ([7, 8], - 1),
             initial_state\<lparr>reads := 1, emitted := [LogRecord (Some 7), LogRecord (Some 8)]\<rparr>)
   \<and> get_new_events (fixed_log_world [LogRecord (Some 7), LogRecord (Some 8), LOGS_COMPLETE]) (- 1)
        (initial_state\<lparr>reads := 1, emitted := [LogRecord (Some 7), LogRecord (Some 8)]\<rparr>) =
       Some (Inr ([], - 1),
             initial_state\<lparr>reads := 2, emitted := [LogRecord (Some 7), LogRecord (Some 8)]\<rparr>)
   \<and> logs_loop (example_launcher False 60)
        (fixed_log_world [LogRecord (Some 7), LogRecord (Some 8), LOGS_COMPLETE]) 0 0
        initial_state =
       Some (Inr (),
             initial_state\<lparr>clock_reads := 1, reads := 1,
                           emitted := [LogRecord (Some 7), LogRecord (Some 8)],
                           yielded := [7, 8], sleeps := 1\<rparr>)"
  using recovery_of_complete_log
    [of "fixed_log_world [LogRecord (Some 7), LogRecord (Some 8), LOGS_COMPLETE]"
        "[LogRecord (Some 7), LogRecord (Some 8)]" initial_state "example_launcher False 60" 0]
  by (simp add: fixed_log_world_def initial_state_def wraps_event_def timed_out_def
        example_launcher_def)

lemma get_new_events_not_found:
  "read_file w (reads st) = ReadRaises (HTTPError (ErrorCode (Some ''RESOURCE_DOES_NOT_EXIST''))) \<Longrightarrow>
   get_new_events w p st = Some (Inr ([], p), st\<lparr>reads := Suc (reads st)\<rparr>)"
  unfolding get_new_events_def by (rule loop_return) (rule read_attempt_not_found)

text \<open>
  C4. At every offset \<open>n\<close>, a read cycle whose read of the event log meets the
  \<^verbatim>\<open>RESOURCE_DOES_NOT_EXIST\<close> answer of the store returns the empty batch and the offset
  \<open>n\<close> unchanged. It raises nothing, makes that one read only, emits no record and logs
  no retry warning.
\<close>

theorem read_of_unwritten_log_is_empty:
  assumes "read_file w (reads st) = ReadRaises (HTTPError (ErrorCode (Some ''RESOURCE_DOES_NOT_EXIST'')))"
  shows "get_new_events w n st = Some (Inr ([], n), st\<lparr>reads := Suc (reads st)\<rparr>)
         \<and> warnings (st\<lparr>reads := Suc (reads st)\<rparr>) = warnings st
         \<and> emitted (st\<lparr>reads := Suc (reads st)\<rparr>) = emitted st"
  using assms by (simp add: get_new_events_not_found)

theorem read_of_unwritten_log_is_empty_witness:
  "read_file (scripted_world [ReadRaises (HTTPError (ErrorCode (Some ''RESOURCE_DOES_NOT_EXIST'')))] [] [] (Inr None))
      (reads initial_state) = ReadRaises (HTTPError (ErrorCode (Some ''RESOURCE_DOES_NOT_EXIST'')))
   \<and> get_new_events
        (scripted_world [ReadRaises (HTTPError (ErrorCode (Some ''RESOURCE_DOES_NOT_EXIST'')))] [] [] (Inr None))
        5 initial_state = Some (Inr ([], 5), initial_state\<lparr>reads := 1\<rparr>)"
  using read_of_unwritten_log_is_empty
    [of "scripted_world [ReadRaises (HTTPError (ErrorCode (Some ''RESOURCE_DOES_NOT_EXIST'')))] [] [] (Inr None)"
        initial_state 5]
  by (simp add: scripted_world_def initial_state_def)

lemma before_marker_nth:
  "i < length (before_marker xs) \<Longrightarrow> before_marker xs ! i = xs ! i"
  by (simp add: before_marker_def takeWhile_nth)

lemma before_marker_last_marker: "before_marker [LOGS_COMPLETE] = []"
  by (simp add: before_marker_def)

text \<open>
  C2 (amended). A read cycle at offset \<open>k\<close> against a log of at least \<open>k\<close> records
  forwards to the log handler exactly the records at the indices from \<open>k\<close> up to the first
  completion marker at or after \<open>k\<close> (up to the end of the log when there is none), each
  at its own index, and returns the events these records carry, in log order. The offset
  returned is \<open>-1\<close> when the marker was reached and \<open>k\<close> plus the number of records
  consumed otherwise. When the log is unchanged at the next read, and the marker was not
  reached or is the last record of the log, a cycle at the offset returned gives the empty
  batch, emits nothing and returns the same offset.
\<close>

theorem read_cycle_returns_unseen_suffix:
  assumes rd: "read_file w (reads st) = Pickled records" and k: "k \<le> length records"
  shows "\<exists>offset.
      get_new_events w (int k) st =
        Some (Inr (domain_events (before_marker (drop k records)), offset),
              st\<lparr>reads := Suc (reads st),
                 emitted := emitted st @ before_marker (drop k records)\<rparr>)
    \<and> (\<forall>i < length (before_marker (drop k records)).
          before_marker (drop k records) ! i = records ! (k + i))
    \<and> offset = (if LOGS_COMPLETE \<in> set (drop k records) then - 1
                 else int k + int (length (before_marker (drop k records))))
    \<and> (read_file w (Suc (reads st)) = Pickled records
        \<and> (LOGS_COMPLETE \<notin> set (drop k records) \<or> last records = LOGS_COMPLETE) \<longrightarrow>
        get_new_events w offset
            (st\<lparr>reads := Suc (reads st),
               emitted := emitted st @ before_marker (drop k records)\<rparr>) =
          Some (Inr ([], offset),
                st\<lparr>reads := Suc (Suc (reads st)),
                   emitted := emitted st @ before_marker (drop k records)\<rparr>))"
proof -
  let ?new = "before_marker (drop k records)"
  let ?st1 = "st\<lparr>reads := Suc (reads st), emitted := emitted st @ ?new\<rparr>"
  let ?offset = "if LOGS_COMPLETE \<in> set (drop k records) then - 1
                 else int k + int (length ?new)"
  have len: "LOGS_COMPLETE \<notin> set (drop k records) \<Longrightarrow> length ?new = length (drop k records)"
    by (simp add: before_marker_none)
  have first: "get_new_events w (int k) st = Some (Inr (domain_events ?new, ?offset), ?st1)"
    using get_new_events_pickled [OF rd, of "int k"] len
    by (simp add: py_slice_from_nat)
  have idx: "\<forall>i < length ?new. ?new ! i = records ! (k + i)"
    using k by (simp add: before_marker_nth)
  have again: "get_new_events w ?offset ?st1 =
      Some (Inr ([], ?offset), st\<lparr>reads := Suc (Suc (reads st)), emitted := emitted st @ ?new\<rparr>)"
    if rd2: "read_file w (Suc (reads st)) = Pickled records"
      and wf: "LOGS_COMPLETE \<notin> set (drop k records) \<or> last records = LOGS_COMPLETE"
  proof (cases "LOGS_COMPLETE \<in> set (drop k records)")
    case True
    then have ne: "records \<noteq> []" by auto
    with wf True have "py_slice_from (- 1) records = [LOGS_COMPLETE]"
      by (simp add: py_slice_from_last)
    then show ?thesis
      using get_new_events_pickled [of w ?st1 records "- 1"] rd2 True
      by (simp add: before_marker_last_marker)
  next
    case False
    have "py_slice_from (int k + int (length ?new)) records = []"
      using len [OF False] k by (simp add: py_slice_from_def)
    then show ?thesis
      using get_new_events_pickled [of w ?st1 records "int k + int (length ?new)"] rd2 False
      by (simp add: before_marker_def)
  qed
  show ?thesis
    using first idx again by (intro exI [of _ ?offset]) simp
qed

theorem read_cycle_returns_unseen_suffix_witness:
  "read_file (fixed_log_world [LogRecord (Some 7), LogRecord None, LogRecord (Some 9)])
      (reads initial_state) = Pickled [LogRecord (Some 7), LogRecord None, LogRecord (Some 9)]
   \<and> (1::nat) \<le> length [LogRecord (Some (7::nat)), LogRecord None, LogRecord (Some 9)]
   \<and> get_new_events (fixed_log_world [LogRecord (Some 7), LogRecord None, LogRecord (Some 9)]) 1
        initial_state =
       Some (Inr ([9], 3),
             initial_state\<lparr>reads := 1, emitted := [LogRecord None, LogRecord (Some 9)]\<rparr>)
   \<and> get_new_events (fixed_log_world [LogRecord (Some 7), LogRecord None, LogRecord (Some 9)]) 3
        (initial_state\<lparr>reads := 1, emitted := [LogRecord None, LogRecord (Some 9)]\<rparr>) =
       Some (Inr ([], 3),
             initial_state\<lparr>reads := 2, emitted := [LogRecord None, LogRecord (Some 9)]\<rparr>)
   \<and> last [LogRecord (Some (7::nat)), LOGS_COMPLETE] = LOGS_COMPLETE
   \<and> get_new_events (fixed_log_world [LogRecord (Some 7), LOGS_COMPLETE]) 0 initial_state =
       Some (Inr ([7], - 1), initial_state\<lparr>reads := 1, emitted := [LogRecord (Some 7)]\<rparr>)
   \<and> get_new_events (fixed_log_world [LogRecord (Some 7), LOGS_COMPLETE]) (- 1)
        (initial_state\<lparr>reads := 1, emitted := [LogRecord (Some 7)]\<rparr>) =
       Some (Inr ([], - 1), initial_state\<lparr>reads := 2, emitted := [LogRecord (Some 7)]\<rparr>)"
  using read_cycle_returns_unseen_suffix
    [of "fixed_log_world [LogRecord (Some 7), LogRecord None, LogRecord (Some 9)]" initial_state
        "[LogRecord (Some 7), LogRecord None, LogRecord (Some 9)]" 1]
    read_cycle_returns_unseen_suffix
    [of "fixed_log_world [LogRecord (Some 7), LOGS_COMPLETE]" initial_state
        "[LogRecord (Some 7), LOGS_COMPLETE]" 0]
  by (simp add: fixed_log_world_def initial_state_def before_marker_def)

text \<open>
  C2 as stated fails: a second cycle against the unchanged log does not always give an empty
  batch. On the log of an event, the completion marker and a second event, the cycle at
  offset 0 returns the first event and the offset \<open>-1\<close>; the cycle at \<open>-1\<close> then returns
  the second event and the offset 0, and a cycle at offset 0 again returns the first event
  a second time.
\<close>

theorem reread_at_returned_offset_counterexample:
  "get_new_events (fixed_log_world [LogRecord (Some 1), LOGS_COMPLETE, LogRecord (Some 2)]) 0
      initial_state =
     Some (Inr ([1], - 1), initial_state\<lparr>reads := 1, emitted := [LogRecord (Some 1)]\<rparr>)
   \<and> get_new_events (fixed_log_world [LogRecord (Some 1), LOGS_COMPLETE, LogRecord (Some 2)]) (- 1)
      (initial_state\<lparr>reads := 1, emitted := [LogRecord (Some 1)]\<rparr>) =
     Some (Inr ([2], 0),
           initial_state\<lparr>reads := 2, emitted := [LogRecord (Some 1), LogRecord (Some 2)]\<rparr>)
   \<and> get_new_events (fixed_log_world [LogRecord (Some 1), LOGS_COMPLETE, LogRecord (Some 2)]) 0
      (initial_state\<lparr>reads := 1, emitted := [LogRecord (Some 1)]\<rparr>) =
     Some (Inr ([1], - 1),
           initial_state\<lparr>reads := 2, emitted := [LogRecord (Some 1), LogRecord (Some 1)]\<rparr>)"
  by (simp add: get_new_events_pickled fixed_log_world_def initial_state_def
        py_slice_from_def before_marker_def)

lemma get_new_events_retry:
  assumes "read_file w (reads st) = ReadRaises e" "counted_by_retry e" "c + 1 \<noteq> 3"
  shows "get_new_events_loop w p c st =
         get_new_events_loop w p (c + 1) (st\<lparr>reads := Suc (reads st), warnings := Suc (warnings st)\<rparr>)"
  using loop_caught_retry [OF read_attempt_generic [OF assms(1,2)] assms(3)] by simp

lemma get_new_events_two_failures:
  assumes "read_file w (reads st) = ReadRaises e1" "counted_by_retry e1"
    and "read_file w (Suc (reads st)) = ReadRaises e2" "counted_by_retry e2"
  shows "get_new_events w p st =
         get_new_events_loop w p 2
           (st\<lparr>reads := Suc (Suc (reads st)), warnings := Suc (Suc (warnings st))\<rparr>)"
proof -
  let ?s1 = "st\<lparr>reads := Suc (reads st), warnings := Suc (warnings st)\<rparr>"
  have "get_new_events_loop w p 0 st = get_new_events_loop w p (0 + 1) ?s1"
    by (rule get_new_events_retry [OF assms(1,2)]) simp
  also have "\<dots> = get_new_events_loop w p (1 + 1) (?s1\<lparr>reads := Suc (reads ?s1), warnings := Suc (warnings ?s1)\<rparr>)"
    using get_new_events_retry [of w ?s1 e2 1 p] assms(3,4) by simp
  finally show ?thesis by (simp add: get_new_events_def numeral_2_eq_2)
qed

lemma read_attempt_success:
  assumes "\<forall>e. read_file w (reads s) \<noteq> ReadRaises e"
    and "read_file w' (reads s') = read_file w (reads s)" and "emitted s' = emitted s"
  shows "\<exists>out em. read_attempt w p s = (Return out, s\<lparr>reads := Suc (reads s), emitted := em\<rparr>)
           \<and> read_attempt w' p s' = (Return out, s'\<lparr>reads := Suc (reads s'), emitted := em\<rparr>)"
proof (cases "read_file w (reads s)")
  case EmptyBytes
  then show ?thesis using assms read_attempt_empty [of w s p] read_attempt_empty [of w' s' p]
    by (intro exI [of _ "([], p)"] exI [of _ "emitted s"]) simp
next
  case (Pickled records)
  then show ?thesis
    using assms read_attempt_pickled [of w s records p] read_attempt_pickled [of w' s' records p]
    by auto
next
  case (ReadRaises e)
  then show ?thesis using assms(1) by simp
qed

text \<open>
  What the retry loop does with the exceptions that its counter counts. A read cycle makes
  at most three reads. When the first two reads raise counted exceptions and the third read
  does not raise, the cycle returns the batch and the offset that a cycle whose first read
  has that result returns, and emits the same records; the two failures leave two warnings
  and two more reads behind. When the third read raises a counted exception too, the cycle
  raises it: no batch is returned and nothing is emitted.
\<close>

lemma counted_failures_are_retried:
  assumes e1: "read_file w (reads st) = ReadRaises e1" "counted_by_retry e1"
    and e2: "read_file w (Suc (reads st)) = ReadRaises e2" "counted_by_retry e2"
  shows "(read_file w (Suc (Suc (reads st))) = ReadRaises e3 \<and> counted_by_retry e3 \<longrightarrow>
            get_new_events w p st =
              Some (Inl e3, st\<lparr>reads := reads st + 3, warnings := warnings st + 2\<rparr>))
         \<and> ((\<forall>e. read_file w (Suc (Suc (reads st))) \<noteq> ReadRaises e)
            \<and> read_file w' (reads st) = read_file w (Suc (Suc (reads st))) \<longrightarrow>
            (\<exists>out em.
               get_new_events w p st =
                 Some (Inr out, st\<lparr>reads := reads st + 3, warnings := warnings st + 2,
                                  emitted := em\<rparr>)
               \<and> get_new_events w' p st =
                 Some (Inr out, st\<lparr>reads := reads st + 1, emitted := em\<rparr>)))
         \<and> (\<exists>r s. get_new_events w p st = Some (r, s) \<and> reads s \<le> reads st + 3)"
proof -
  let ?s2 = "st\<lparr>reads := Suc (Suc (reads st)), warnings := Suc (Suc (warnings st))\<rparr>"
  have two: "get_new_events w p st = get_new_events_loop w p 2 ?s2"
    by (rule get_new_events_two_failures [OF e1 e2])
  have fail: "get_new_events w p st =
        Some (Inl e3, st\<lparr>reads := reads st + 3, warnings := warnings st + 2\<rparr>)"
    if "read_file w (Suc (Suc (reads st))) = ReadRaises e3" "counted_by_retry e3"
    using loop_caught_last [OF read_attempt_generic [of w ?s2 e3 p]] that two by simp
  have ok: "\<exists>out em.
       get_new_events w p st =
         Some (Inr out, st\<lparr>reads := reads st + 3, warnings := warnings st + 2, emitted := em\<rparr>)
       \<and> get_new_events w' p st = Some (Inr out, st\<lparr>reads := reads st + 1, emitted := em\<rparr>)"
    if ne: "\<forall>e. read_file w (Suc (Suc (reads st))) \<noteq> ReadRaises e"
      and eq: "read_file w' (reads st) = read_file w (Suc (Suc (reads st)))"
  proof -
    from read_attempt_success [of w ?s2 w' st p] ne eq
    obtain out em where
      a: "read_attempt w p ?s2 = (Return out, ?s2\<lparr>reads := Suc (reads ?s2), emitted := em\<rparr>)"
      and b: "read_attempt w' p st = (Return out, st\<lparr>reads := Suc (reads st), emitted := em\<rparr>)"
      by auto
    have "get_new_events w p st = Some (Inr out, ?s2\<lparr>reads := Suc (reads ?s2), emitted := em\<rparr>)"
      using loop_return [OF a] two by simp
    moreover have "get_new_events w' p st = Some (Inr out, st\<lparr>reads := Suc (reads st), emitted := em\<rparr>)"
      using loop_return [OF b] by (simp add: get_new_events_def)
    ultimately show ?thesis by (intro exI [of _ out] exI [of _ em]) simp
  qed
  have bound: "\<exists>r s. get_new_events w p st = Some (r, s) \<and> reads s \<le> reads st + 3"
    using get_new_events_returns [of w p st] by blast
  show ?thesis using fail ok bound by blast
qed

lemma counted_failures_are_retried_example:
  "counted_by_retry (Exception ''connection reset'')
   \<and> counted_by_retry (HTTPError (ErrorCode (Some ''TEMPORARILY_UNAVAILABLE'')))
   \<and> get_new_events
        (scripted_world [ReadRaises (Exception ''connection reset''),
                         ReadRaises (HTTPError (ErrorCode (Some ''TEMPORARILY_UNAVAILABLE''))),
                         Pickled [LogRecord (Some 7), LogRecord (Some 8)]] [] [] (Inr None))
        1 initial_state =
       Some (Inr ([8], 2), initial_state\<lparr>reads := 3, warnings := 2, emitted := [LogRecord (Some 8)]\<rparr>)
   \<and> get_new_events
        (scripted_world [Pickled [LogRecord (Some 7), LogRecord (Some 8)]] [] [] (Inr None))
        1 initial_state =
       Some (Inr ([8], 2), initial_state\<lparr>reads := 1, emitted := [LogRecord (Some 8)]\<rparr>)
   \<and> get_new_events
        (scripted_world [ReadRaises (Exception ''connection reset''),
                         ReadRaises (HTTPError (ErrorCode (Some ''TEMPORARILY_UNAVAILABLE''))),
                         ReadRaises (Exception ''connection reset'')] [] [] (Inr None))
        1 initial_state =
       Some (Inl (Exception ''connection reset''), initial_state\<lparr>reads := 3, warnings := 2\<rparr>)"
  using counted_failures_are_retried
    [of "scripted_world [ReadRaises (Exception ''connection reset''),
                         ReadRaises (HTTPError (ErrorCode (Some ''TEMPORARILY_UNAVAILABLE''))),
                         Pickled [LogRecord (Some 7), LogRecord (Some 8)]] [] [] (Inr None)"
        initial_state "Exception ''connection reset''" "HTTPError (ErrorCode (Some ''TEMPORARILY_UNAVAILABLE''))"
        "Exception ''connection reset''"
        1
        "scripted_world [Pickled [LogRecord (Some 7), LogRecord (Some 8)]] [] [] (Inr None)"]
    counted_failures_are_retried
    [of "scripted_world [ReadRaises (Exception ''connection reset''),
                         ReadRaises (HTTPError (ErrorCode (Some ''TEMPORARILY_UNAVAILABLE''))),
                         ReadRaises (Exception ''connection reset'')] [] [] (Inr None)"
        initial_state "Exception ''connection reset''" "HTTPError (ErrorCode (Some ''TEMPORARILY_UNAVAILABLE''))"
        "Exception ''connection reset''"
        1
        "scripted_world [Pickled [LogRecord (Some 7), LogRecord (Some 8)]] [] [] (Inr None)"]
    get_new_events_pickled
    [of "scripted_world [Pickled [LogRecord (Some 7), LogRecord (Some 8)]] [] [] (Inr None)"
        initial_state "[LogRecord (Some 7), LogRecord (Some 8)]" 1]
  by (simp add: scripted_world_def initial_state_def counted_by_retry_def
        py_slice_from_def before_marker_def)

lemma get_new_events_undecodable:
  "read_file w (reads st) = ReadRaises (HTTPError Undecodable) \<Longrightarrow>
   get_new_events w p st = Some (Inl handler_failure, st\<lparr>reads := Suc (reads st)\<rparr>)"
  unfolding get_new_events_def by (rule loop_uncaught) (rule read_attempt_undecodable)

text \<open>
  C3. The claim is that a read of the event log is attempted up to three times for generic
  transient errors, and that two such failures followed by a success give the batch of a
  success at the first attempt. The code does not do so for an \<^verbatim>\<open>HTTPError\<close> whose response
  has no readable error code (a gateway that answers with a page that is not JSON). The
  \<^verbatim>\<open>except HTTPError\<close> clause reads the error code of the response before the retry counter
  is reached, that reading raises, and the exception leaves \<^verbatim>\<open>get_new_events\<close>. Here the
  first two reads fail in this way and the third would give one record: the cycle ends
  with the exception after one read, without a warning and without a second attempt,
  where a cycle whose first read succeeds returns the event and the offset 1.
\<close>

theorem undecodable_http_error_is_not_retried:
  "get_new_events
      (scripted_world [ReadRaises (HTTPError Undecodable), ReadRaises (HTTPError Undecodable),
                       Pickled [LogRecord (Some 7)]] [] [] (Inr None))
      0 initial_state =
     Some (Inl handler_failure, initial_state\<lparr>reads := 1\<rparr>)
   \<and> get_new_events (scripted_world [Pickled [LogRecord (Some 7)]] [] [] (Inr None))
        0 initial_state =
       Some (Inr ([7], 1), initial_state\<lparr>reads := 1, emitted := [LogRecord (Some 7)]\<rparr>)"
  by (simp add: get_new_events_undecodable get_new_events_pickled scripted_world_def
        initial_state_def py_slice_from_def before_marker_def)

section \<open>Properties of the event iterator\<close>

lemma read_attempt_cong_world:
  "read_file w' = read_file w \<Longrightarrow> read_attempt w' p st = read_attempt w p st"
  by (simp add: read_attempt_def)

lemma get_new_events_loop_cong_world:
  "c < 3 \<Longrightarrow> read_file w' = read_file w \<Longrightarrow>
   get_new_events_loop w' p c st = get_new_events_loop w p c st"
proof (induction "3 - c" arbitrary: c st)
  case 0
  then show ?case by simp
next
  case (Suc n)
  note same = read_attempt_cong_world [OF Suc.prems(2)]
  show ?case
  proof (cases rule: read_attempt_cases [of w p st])
    case (returned r em)
    then show ?thesis by (simp add: loop_return same)
  next
    case (uncaught e)
    then show ?thesis by (simp add: loop_uncaught same)
  next
    case (caught e)
    then have c': "read_attempt w' p st = (Caught e, st\<lparr>reads := Suc (reads st)\<rparr>)"
      by (simp add: same)
    show ?thesis
    proof (cases "c = 2")
      case True
      then show ?thesis using caught c' by (simp add: loop_caught_last)
    next
      case False
      with Suc.prems have c: "c + 1 \<noteq> 3" "c + 1 < 3" by auto
      from Suc.hyps(2) c have n: "n = 3 - (c + 1)" by simp
      show ?thesis
        using loop_caught_retry [OF caught c(1)] loop_caught_retry [OF c' c(1)]
          Suc.hyps(1) [OF n c(2) Suc.prems(2)]
        by simp
    qed
  qed
qed

lemma get_new_events_cong_world:
  "read_file w' = read_file w \<Longrightarrow> get_new_events w' p st = get_new_events w p st"
  using get_new_events_loop_cong_world [of 0 w' w p st] by (simp add: get_new_events_def)

lemma logs_loop_cases [consumes 1, case_names finished timeout read_raises interrupted continues]:
  assumes run: "logs_loop l w start p st = Some y"
    and finished: "\<And>st. P (- 1) st (Inr (), st)"
    and timeout: "\<And>p st. p \<noteq> - 1 \<Longrightarrow> timed_out l w start st \<Longrightarrow>
        P p st (Inl log_timeout, st\<lparr>clock_reads := Suc (clock_reads st)\<rparr>)"
    and read_raises: "\<And>p st e st2. p \<noteq> - 1 \<Longrightarrow> \<not> timed_out l w start st \<Longrightarrow>
        get_new_events w p (st\<lparr>clock_reads := Suc (clock_reads st)\<rparr>) = Some (Inl e, st2) \<Longrightarrow>
        P p st (Inl e, st2)"
    and interrupted: "\<And>p st evs p' st2 e. p \<noteq> - 1 \<Longrightarrow> \<not> timed_out l w start st \<Longrightarrow>
        get_new_events w p (st\<lparr>clock_reads := Suc (clock_reads st)\<rparr>) = Some (Inr (evs, p'), st2) \<Longrightarrow>
        time_sleep w (sleeps st2) = Some e \<Longrightarrow>
        P p st (Inl e, st2\<lparr>yielded := yielded st2 @ evs, sleeps := Suc (sleeps st2)\<rparr>)"
    and continues: "\<And>p st evs p' st2 y. p \<noteq> - 1 \<Longrightarrow> \<not> timed_out l w start st \<Longrightarrow>
        get_new_events w p (st\<lparr>clock_reads := Suc (clock_reads st)\<rparr>) = Some (Inr (evs, p'), st2) \<Longrightarrow>
        time_sleep w (sleeps st2) = None \<Longrightarrow>
        P p' (st2\<lparr>yielded := yielded st2 @ evs, sleeps := Suc (sleeps st2)\<rparr>) y \<Longrightarrow>
        P p st y"
  shows "P p st y"
proof -
  have "l' = l \<and> w' = w \<and> start' = start \<longrightarrow> P p st y"
    if r: "logs_loop l' w' start' p st = Some y" for l' w' start'
  proof (rule logs_loop.raw_induct
      [where P = "\<lambda>l' w' start' p st y. l' = l \<and> w' = w \<and> start' = start \<longrightarrow> P p st y",
       OF _ r], goal_cases)
    case (1 loop l' w' start' p st y)
    show ?case
    proof
      assume eq: "l' = l \<and> w' = w \<and> start' = start"
      then have eqs: "l' = l" "w' = w" "start' = start" by simp_all
      let ?st1 = "st\<lparr>clock_reads := Suc (clock_reads st)\<rparr>"
      note body = 1(2) [unfolded eqs]
      have IH: "P p' s y'" if "loop l w start p' s = Some y'" for p' s y'
        using 1(1) [of l w start p' s y'] that by simp
      show "P p st y"
      proof (cases "p = - 1")
        case True
        with body have "y = (Inr (), st)" by simp
        with True finished show ?thesis by simp
      next
        case False
        show ?thesis
        proof (cases "timed_out l w start st")
          case True
          with body False have "y = (Inl log_timeout, ?st1)"
            by (simp add: timed_out_def log_timeout_def)
          with timeout [OF False True] show ?thesis by simp
        next
          case nt: False
          from body False nt have b: "(case get_new_events w p ?st1 of
                 None \<Rightarrow> None
               | Some (Inl e, st2) \<Rightarrow> Some (Inl e, st2)
               | Some (Inr (new_events, processed_records'), st2) \<Rightarrow>
                   (case sleep w (st2\<lparr>yielded := yielded st2 @ new_events\<rparr>) of
                      (Some e, st3) \<Rightarrow> Some (Inl e, st3)
                    | (None, st3) \<Rightarrow> loop l w start processed_records' st3)) = Some y"
            by (simp add: timed_out_def)
          then obtain g st2 where gne: "get_new_events w p ?st1 = Some (g, st2)"
            by (cases "get_new_events w p ?st1") auto
          show ?thesis
          proof (cases g)
            case (Inl e)
            with b gne have "y = (Inl e, st2)" by simp
            with read_raises [OF False nt] gne Inl show ?thesis by simp
          next
            case (Inr batch)
            obtain evs p' where batch: "batch = (evs, p')" by (cases batch)
            let ?st3 = "st2\<lparr>yielded := yielded st2 @ evs, sleeps := Suc (sleeps st2)\<rparr>"
            note gne' = gne [unfolded Inr batch]
            show ?thesis
            proof (cases "time_sleep w (sleeps st2)")
              case None
              with b gne' have "loop l w start p' ?st3 = Some y" by (simp add: sleep_def)
              then have "P p' ?st3 y" by (rule IH)
              with continues [OF False nt gne' None] show ?thesis .
            next
              case (Some e)
              with b gne' have "y = (Inl e, ?st3)" by (simp add: sleep_def)
              with interrupted [OF False nt gne' Some] show ?thesis by simp
            qed
          qed
        qed
      qed
    qed
  qed
  with run show ?thesis by blast
qed

lemma logs_loop_world_le:
  assumes "logs_loop l w start p st = Some y" and same: "same_log_and_clock w w'"
  shows "logs_loop l w' start p st = Some y"
  using assms(1)
proof (induction rule: logs_loop_cases)
  case (finished st)
  show ?case by (rule logs_loop_done)
next
  case (timeout p st)
  from timeout(2) same have "timed_out l w' start st"
    by (simp add: timed_out_def same_log_and_clock_def)
  from logs_loop_timed_out [OF timeout(1) this] show ?case .
next
  case (read_raises p st e st2)
  from read_raises(2) same have nt: "\<not> timed_out l w' start st"
    by (simp add: timed_out_def same_log_and_clock_def)
  from read_raises(3) same
  have "get_new_events w' p (st\<lparr>clock_reads := Suc (clock_reads st)\<rparr>) = Some (Inl e, st2)"
    using get_new_events_cong_world [of w' w] by (simp add: same_log_and_clock_def)
  from logs_loop_read_raises [OF read_raises(1) nt this] show ?case .
next
  case (interrupted p st evs p' st2 e)
  from interrupted(2) same have nt: "\<not> timed_out l w' start st"
    by (simp add: timed_out_def same_log_and_clock_def)
  from interrupted(3) same
  have g: "get_new_events w' p (st\<lparr>clock_reads := Suc (clock_reads st)\<rparr>) = Some (Inr (evs, p'), st2)"
    using get_new_events_cong_world [of w' w] by (simp add: same_log_and_clock_def)
  from interrupted(4) same have "time_sleep w' (sleeps st2) = Some e"
    by (simp add: same_log_and_clock_def)
  from logs_loop_interrupted [OF interrupted(1) nt g this] show ?case .
next
  case (continues p st evs p' st2 y)
  from continues(2) same have nt: "\<not> timed_out l w' start st"
    by (simp add: timed_out_def same_log_and_clock_def)
  from continues(3) same
  have g: "get_new_events w' p (st\<lparr>clock_reads := Suc (clock_reads st)\<rparr>) = Some (Inr (evs, p'), st2)"
    using get_new_events_cong_world [of w' w] by (simp add: same_log_and_clock_def)
  from continues(4) same have "time_sleep w' (sleeps st2) = None"
    by (simp add: same_log_and_clock_def)
  from logs_loop_continues [OF continues(1) nt g this] continues(5) show ?case by simp
qed

lemma logs_loop_cong_world:
  assumes "same_log_and_clock w w'"
  shows "logs_loop l w' start p st = logs_loop l w start p st"
proof -
  have sym: "same_log_and_clock w' w" using assms by (simp add: same_log_and_clock_def)
  show ?thesis
  proof (cases "logs_loop l w start p st")
    case None
    show ?thesis
    proof (cases "logs_loop l w' start p st")
      case (Some y)
      then have "logs_loop l w start p st = Some y" by (rule logs_loop_world_le) (rule sym)
      with None show ?thesis by simp
    qed (simp add: None)
  next
    case (Some y)
    then show ?thesis using logs_loop_world_le [OF Some assms] by simp
  qed
qed

lemma get_new_events_same_polls:
  "get_new_events w p s = Some (a, s') \<Longrightarrow> polls s' = polls s"
  using get_new_events_returns [of w p s] by (auto simp: same_but_reads_def)

lemma logs_loop_no_poll:
  assumes "logs_loop l w start p st = Some y"
  shows "polls (snd y) = polls st"
  using assms
proof (induction rule: logs_loop_cases)
  case (finished st)
  show ?case by simp
next
  case (timeout p st)
  show ?case by simp
next
  case (read_raises p st e st2)
  from get_new_events_same_polls [OF read_raises(3)] show ?case by simp
next
  case (interrupted p st evs p' st2 e)
  from get_new_events_same_polls [OF interrupted(3)] show ?case by simp
next
  case (continues p st evs p' st2 y)
  from get_new_events_same_polls [OF continues(3)] continues(5) show ?case by simp
qed

text \<open>Rules that evaluate the iterator on the example inputs.\<close>

lemma get_new_events_interrupted:
  "read_file w (reads st) = ReadRaises Interrupted \<Longrightarrow>
   get_new_events w p st = Some (Inl Interrupted, st\<lparr>reads := Suc (reads st)\<rparr>)"
  unfolding get_new_events_def by (rule loop_uncaught) (rule read_attempt_interrupted)

lemmas eval_defs = step_events_iterator_def monitor_loop.simps logs_loop.simps poll_tick_def
  sleep_def scripted_world_def initial_state_def example_launcher_def get_new_events_pickled
  py_slice_from_def before_marker_def timed_out_def log_timeout_def

text \<open>
  C5. The second loop of the iterator, entered once the run is reported complete, ends at
  once when the offset is \<open>-1\<close>. Otherwise it reads the clock: when the time since
  \<open>start\<close> is more than the maximum wait, it raises the \<^verbatim>\<open>DatabricksError\<close> of the log
  timeout, having made no read and yielded no event; when it is not, it runs one read
  cycle, yields the batch, sleeps and goes on from the offset returned (an exception of
  the cycle or an interrupt of the sleep ends it). The loop asks nothing about the run:
  two worlds that differ only in the status of the run give the same result, and the
  number of status queries is the same after the loop as before. In the iterator,
  \<open>start\<close> is the clock reading taken on entry, before the first loop.
\<close>

theorem logs_loop_polls_until_marker_or_timeout:
  "logs_loop l w start (- 1) st = Some (Inr (), st)
   \<and> (p \<noteq> - 1 \<and> timed_out l w start st \<longrightarrow>
        logs_loop l w start p st =
          Some (Inl log_timeout, st\<lparr>clock_reads := Suc (clock_reads st)\<rparr>))
   \<and> (p \<noteq> - 1 \<and> \<not> timed_out l w start st \<longrightarrow>
        (\<exists>g st2.
           get_new_events w p (st\<lparr>clock_reads := Suc (clock_reads st)\<rparr>) = Some (g, st2)
           \<and> logs_loop l w start p st =
               (case g of
                  Inl e \<Rightarrow> Some (Inl e, st2)
                | Inr (evs, p') \<Rightarrow>
                    (case time_sleep w (sleeps st2) of
                       Some e \<Rightarrow>
                         Some (Inl e, st2\<lparr>yielded := yielded st2 @ evs,
                                            sleeps := Suc (sleeps st2)\<rparr>)
                     | None \<Rightarrow>
                         logs_loop l w start p'
                           (st2\<lparr>yielded := yielded st2 @ evs, sleeps := Suc (sleeps st2)\<rparr>)))))
   \<and> (same_log_and_clock w w' \<longrightarrow> logs_loop l w' start p st = logs_loop l w start p st)
   \<and> (logs_loop l w start p st = Some y \<longrightarrow> polls (snd y) = polls st)
   \<and> (monitor_loop w False 0 (st\<lparr>clock_reads := Suc (clock_reads st)\<rparr>) = Some (Inr p, st1) \<longrightarrow>
        step_events_iterator l w st = logs_loop l w (time_time w (clock_reads st)) p st1)"
proof -
  have step: "\<exists>g st2.
       get_new_events w p (st\<lparr>clock_reads := Suc (clock_reads st)\<rparr>) = Some (g, st2)
       \<and> logs_loop l w start p st =
           (case g of
              Inl e \<Rightarrow> Some (Inl e, st2)
            | Inr (evs, p') \<Rightarrow>
                (case time_sleep w (sleeps st2) of
                   Some e \<Rightarrow>
                     Some (Inl e, st2\<lparr>yielded := yielded st2 @ evs, sleeps := Suc (sleeps st2)\<rparr>)
                 | None \<Rightarrow>
                     logs_loop l w start p'
                       (st2\<lparr>yielded := yielded st2 @ evs, sleeps := Suc (sleeps st2)\<rparr>)))"
    if p: "p \<noteq> - 1" and nt: "\<not> timed_out l w start st"
  proof -
    let ?st1 = "st\<lparr>clock_reads := Suc (clock_reads st)\<rparr>"
    from get_new_events_returns [of w p ?st1]
    obtain g st2 where g: "get_new_events w p ?st1 = Some (g, st2)" by blast
    have "logs_loop l w start p st =
           (case g of
              Inl e \<Rightarrow> Some (Inl e, st2)
            | Inr (evs, p') \<Rightarrow>
                (case time_sleep w (sleeps st2) of
                   Some e \<Rightarrow>
                     Some (Inl e, st2\<lparr>yielded := yielded st2 @ evs, sleeps := Suc (sleeps st2)\<rparr>)
                 | None \<Rightarrow>
                     logs_loop l w start p'
                       (st2\<lparr>yielded := yielded st2 @ evs, sleeps := Suc (sleeps st2)\<rparr>)))"
    proof (cases g)
      case (Inl e)
      with logs_loop_read_raises [OF p nt] g show ?thesis by simp
    next
      case (Inr batch)
      obtain evs p' where batch: "batch = (evs, p')" by (cases batch)
      note g' = g [unfolded Inr batch]
      show ?thesis
      proof (cases "time_sleep w (sleeps st2)")
        case None
        with logs_loop_continues [OF p nt g' None] Inr batch show ?thesis by simp
      next
        case (Some e)
        with logs_loop_interrupted [OF p nt g' Some] Inr batch show ?thesis by simp
      qed
    qed
    with g show ?thesis by blast
  qed
  have iter: "step_events_iterator l w st = logs_loop l w (time_time w (clock_reads st)) p st1"
    if "monitor_loop w False 0 (st\<lparr>clock_reads := Suc (clock_reads st)\<rparr>) = Some (Inr p, st1)"
    using that by (simp add: step_events_iterator_def)
  show ?thesis
    using logs_loop_done [of l w start st] logs_loop_timed_out [of p l w start st] step
      logs_loop_cong_world [of w w' l start p st] logs_loop_no_poll [of l w start p st y] iter
    by blast
qed

theorem logs_loop_polls_until_marker_or_timeout_witness:
  "(1::int) \<noteq> - 1
   \<and> timed_out (example_launcher False 60)
        (scripted_world [Pickled [LogRecord (Some 1)]] [Inr True] [0, 100] (Inr None)) 0
        (initial_state\<lparr>reads := 1, polls := 1, clock_reads := 1, sleeps := 1,
                        emitted := [LogRecord (Some 1)], yielded := [1]\<rparr>)
   \<and> monitor_loop (scripted_world [Pickled [LogRecord (Some 1)]] [Inr True] [0, 100] (Inr None))
        False 0 (initial_state\<lparr>clock_reads := 1\<rparr>) =
       Some (Inr 1, initial_state\<lparr>reads := 1, polls := 1, clock_reads := 1, sleeps := 1,
                        emitted := [LogRecord (Some 1)], yielded := [1]\<rparr>)
   \<and> step_events_iterator (example_launcher False 60)
        (scripted_world [Pickled [LogRecord (Some 1)]] [Inr True] [0, 100] (Inr None))
        initial_state =
       Some (Inl (DatabricksError
                ''Timed out while waiting for Dagster logs to become available.''),
             initial_state\<lparr>reads := 1, polls := 1, clock_reads := 2, sleeps := 1,
                        emitted := [LogRecord (Some 1)], yielded := [1]\<rparr>)
   \<and> \<not> timed_out (example_launcher False 60)
        (scripted_world
           [Pickled [LogRecord (Some 1)], Pickled [LogRecord (Some 1), LogRecord (Some 2)],
            Pickled [LogRecord (Some 1), LogRecord (Some 2), LOGS_COMPLETE]]
           [Inr True] [0, 10, 20, 30] (Inr None)) 0
        (initial_state\<lparr>reads := 1, polls := 1, clock_reads := 1, sleeps := 1,
                        emitted := [LogRecord (Some 1)], yielded := [1]\<rparr>)
   \<and> logs_loop (example_launcher False 60)
        (scripted_world
           [Pickled [LogRecord (Some 1)], Pickled [LogRecord (Some 1), LogRecord (Some 2)],
            Pickled [LogRecord (Some 1), LogRecord (Some 2), LOGS_COMPLETE]]
           [Inr True] [0, 10, 20, 30] (Inr None)) 0 1
        (initial_state\<lparr>reads := 1, polls := 1, clock_reads := 1, sleeps := 1,
                        emitted := [LogRecord (Some 1)], yielded := [1]\<rparr>) =
       Some (Inr (),
             initial_state\<lparr>reads := 3, polls := 1, clock_reads := 3, sleeps := 3,
                        emitted := [LogRecord (Some 1), LogRecord (Some 2)], yielded := [1, 2]\<rparr>)"
  using logs_loop_polls_until_marker_or_timeout
    [where l = "example_launcher False 60"
       and w = "scripted_world [Pickled [LogRecord (Some 1)]] [Inr True] [0, 100] (Inr None)"
       and start = 0 and p = 1
       and st = "initial_state\<lparr>reads := 1, polls := 1, clock_reads := 1, sleeps := 1,
                        emitted := [LogRecord (Some 1)], yielded := [1]\<rparr>"]
    logs_loop_polls_until_marker_or_timeout
    [where l = "example_launcher False 60"
       and w = "scripted_world [Pickled [LogRecord (Some 1)]] [Inr True] [0, 100] (Inr None)"
       and st = initial_state and p = 1
       and ?st1.0 = "initial_state\<lparr>reads := 1, polls := 1, clock_reads := 1, sleeps := 1,
                        emitted := [LogRecord (Some 1)], yielded := [1]\<rparr>"]
    logs_loop_polls_until_marker_or_timeout
    [where l = "example_launcher False 60"
       and w = "scripted_world
           [Pickled [LogRecord (Some 1)], Pickled [LogRecord (Some 1), LogRecord (Some 2)],
            Pickled [LogRecord (Some 1), LogRecord (Some 2), LOGS_COMPLETE]]
           [Inr True] [0, 10, 20, 30] (Inr None)"
       and start = 0 and p = 1
       and st = "initial_state\<lparr>reads := 1, polls := 1, clock_reads := 1, sleeps := 1,
                        emitted := [LogRecord (Some 1)], yielded := [1]\<rparr>"]
  by (simp add: eval_defs)

text \<open>
  C6. On every tick of the first loop whose sleep is not cut short by an interrupt, exactly
  one read cycle runs, after the status query and whatever the status query did: the
  state after the tick is the state after that one cycle (one to three reads of the
  log), with the batch yielded. When the cycle returns, the tick ends as the status
  query did, with its exception or with its answer; when the cycle raises, the tick
  raises that exception.
\<close>

theorem poll_tick_always_reads:
  assumes "time_sleep w (sleeps st) = None"
  shows "\<exists>g st3.
      get_new_events w p (st\<lparr>sleeps := Suc (sleeps st), polls := Suc (polls st)\<rparr>) = Some (g, st3)
      \<and> reads st < reads st3 \<and> reads st3 \<le> reads st + 3
      \<and> poll_tick w p st =
          Some (case g of
                  Inl e \<Rightarrow> (Inl e, st3)
                | Inr (new_events, p') \<Rightarrow>
                    (case poll_run_state w (polls st) of
                       Inl e \<Rightarrow> Inl e
                     | Inr done \<Rightarrow> Inr (done, p'),
                     st3\<lparr>yielded := yielded st3 @ new_events\<rparr>))"
proof -
  let ?st2 = "st\<lparr>sleeps := Suc (sleeps st), polls := Suc (polls st)\<rparr>"
  from get_new_events_returns [of w p ?st2]
  obtain g st3 where g: "get_new_events w p ?st2 = Some (g, st3)"
    and r: "reads ?st2 < reads st3" "reads st3 \<le> reads ?st2 + 3"
    by blast
  have "poll_tick w p st =
          Some (case g of
                  Inl e \<Rightarrow> (Inl e, st3)
                | Inr (new_events, p') \<Rightarrow>
                    (case poll_run_state w (polls st) of
                       Inl e \<Rightarrow> Inl e
                     | Inr done \<Rightarrow> Inr (done, p'),
                     st3\<lparr>yielded := yielded st3 @ new_events\<rparr>))"
    using assms g
    by (simp add: poll_tick_def sleep_def Let_def split: sum.splits prod.splits)
  with g r show ?thesis by (intro exI [of _ g] exI [of _ st3]) simp
qed

theorem poll_tick_always_reads_witness:
  "time_sleep (scripted_world [Pickled [LogRecord (Some 1)]]
                 [Inl (DatabricksError ''status check failed'')] [] (Inr None))
      (sleeps initial_state) = None
   \<and> poll_run_state (scripted_world [Pickled [LogRecord (Some 1)]]
                 [Inl (DatabricksError ''status check failed'')] [] (Inr None))
      (polls initial_state) = Inl (DatabricksError ''status check failed'')
   \<and> poll_tick (scripted_world [Pickled [LogRecord (Some 1)]]
                 [Inl (DatabricksError ''status check failed'')] [] (Inr None)) 0 initial_state =
       Some (Inl (DatabricksError ''status check failed''),
             initial_state\<lparr>reads := 1, polls := 1, sleeps := 1,
                           emitted := [LogRecord (Some 1)], yielded := [1]\<rparr>)
   \<and> poll_tick (scripted_world [Pickled [LogRecord (Some 1)]] [Inr False] [] (Inr None))
        0 initial_state =
       Some (Inr (False, 1),
             initial_state\<lparr>reads := 1, polls := 1, sleeps := 1,
                           emitted := [LogRecord (Some 1)], yielded := [1]\<rparr>)"
  using poll_tick_always_reads
    [of "scripted_world [Pickled [LogRecord (Some 1)]]
           [Inl (DatabricksError ''status check failed'')] [] (Inr None)" initial_state 0]
    poll_tick_always_reads
    [of "scripted_world [Pickled [LogRecord (Some 1)]] [Inr False] [] (Inr None)" initial_state 0]
  by (simp add: eval_defs)

section \<open>Properties of the launch\<close>

text \<open>
  C7 (amended). Once the artifacts are uploaded and the run is submitted, and with
  \<^verbatim>\<open>wait_for_logs\<close> set, the retrieval of the cluster logs runs when the event iterator
  ends, however it ends. When the retrieval returns, the launch ends as the iterator did
  and the logs retrieved are written to the log. When the retrieval raises, its exception
  is the outcome of the launch.
\<close>

theorem launch_step_log_retrieval:
  assumes "upload_artifacts w = None" and "submit_run w = Inr run_id"
    and "step_events_iterator l w st = Some (outcome, st1)" and "wait_for_logs l"
  shows "(retrieve_logs_for_run_id w = Inl e \<longrightarrow> launch_step l w st = Some (Inl e, st1))
       \<and> (retrieve_logs_for_run_id w = Inr logs \<longrightarrow>
            fst (log_logs_from_cluster w st1) = Inr ()
            \<and> launch_step l w st = Some (outcome, snd (log_logs_from_cluster w st1)))"
  using assms
  by (auto simp: launch_step_def log_logs_from_cluster_def split: option.splits sum.splits prod.splits)

theorem launch_step_log_retrieval_witness:
  "upload_artifacts (scripted_world [Pickled [LOGS_COMPLETE]] [Inr True] [0, 1]
       (Inr (Some (Some ''out'', Some ''err'')))) = None
   \<and> submit_run (scripted_world [Pickled [LOGS_COMPLETE]] [Inr True] [0, 1]
       (Inr (Some (Some ''out'', Some ''err'')))) = Inr 1
   \<and> wait_for_logs (example_launcher True 60)
   \<and> step_events_iterator (example_launcher True 60)
        (scripted_world [Pickled [LOGS_COMPLETE]] [Inr True] [0, 1]
           (Inr (Some (Some ''out'', Some ''err'')))) initial_state =
       Some (Inr (), initial_state\<lparr>reads := 1, polls := 1, clock_reads := 1, sleeps := 1\<rparr>)
   \<and> launch_step (example_launcher True 60)
        (scripted_world [Pickled [LOGS_COMPLETE]] [Inr True] [0, 1]
           (Inr (Some (Some ''out'', Some ''err'')))) initial_state =
       Some (Inr (), initial_state\<lparr>reads := 1, polls := 1, clock_reads := 1, sleeps := 1,
                                  infos := [''err'', ''out'']\<rparr>)
   \<and> launch_step (example_launcher True 60)
        (scripted_world [ReadRaises Interrupted] [Inr True] [0, 1]
           (Inl (Exception ''cluster lookup failed''))) initial_state =
       Some (Inl (Exception ''cluster lookup failed''),
             initial_state\<lparr>reads := 1, polls := 1, clock_reads := 1, sleeps := 1\<rparr>)"
  using launch_step_log_retrieval
    [of "scripted_world [Pickled [LOGS_COMPLETE]] [Inr True] [0, 1]
           (Inr (Some (Some ''out'', Some ''err'')))" 1 "example_launcher True 60" initial_state
        "Inr ()" "initial_state\<lparr>reads := 1, polls := 1, clock_reads := 1, sleeps := 1\<rparr>"
        "Exception ''cluster lookup failed''" "Some (Some ''out'', Some ''err'')"]
    launch_step_log_retrieval
    [of "scripted_world [ReadRaises Interrupted] [Inr True] [0, 1]
           (Inl (Exception ''cluster lookup failed''))" 1 "example_launcher True 60" initial_state
        "Inl Interrupted" "initial_state\<lparr>reads := 1, polls := 1, clock_reads := 1, sleeps := 1\<rparr>"
        "Exception ''cluster lookup failed''" None]
  by (simp add: launch_step_def log_logs_from_cluster_def log_info_if_truthy_def eval_defs
        get_new_events_interrupted)

text \<open>
  C7 as stated fails: nothing catches an exception of the retrieval of the cluster logs.
  Here the event iterator ends without error and \<^verbatim>\<open>retrieve_logs_for_run_id\<close> raises; the
  launch ends with that exception.
\<close>

theorem log_retrieval_failure_propagates_counterexample:
  "wait_for_logs (example_launcher True 60)
   \<and> step_events_iterator (example_launcher True 60)
        (scripted_world [Pickled [LOGS_COMPLETE]] [Inr True] [0, 1]
           (Inl (Exception ''cluster lookup failed''))) initial_state =
       Some (Inr (), initial_state\<lparr>reads := 1, polls := 1, clock_reads := 1, sleeps := 1\<rparr>)
   \<and> launch_step (example_launcher True 60)
        (scripted_world [Pickled [LOGS_COMPLETE]] [Inr True] [0, 1]
           (Inl (Exception ''cluster lookup failed''))) initial_state =
       Some (Inl (Exception ''cluster lookup failed''),
             initial_state\<lparr>reads := 1, polls := 1, clock_reads := 1, sleeps := 1\<rparr>)"
  by (simp add: launch_step_def log_logs_from_cluster_def eval_defs)

end
